theory Spec2Isabelle
  imports Main "HOL-Library.Sublist"
begin

section \<open>Python values, exceptions and the page state\<close>

text \<open>
  The application (\<^verbatim>\<open>app/main.py\<close>) is a Streamlit script. Its collaborators
  \<^verbatim>\<open>chains.Chain\<close>, \<^verbatim>\<open>portfolio.Portfolio\<close>, \<^verbatim>\<open>utils.clean_text\<close> and the page loader are
  imported modules; they enter the model as the fields of a record of functions, each
  returning either the exception it raised or its value.

  An \<open>exn\<close> is an instance of Python's \<^verbatim>\<open>Exception\<close>: its class name and \<^verbatim>\<open>str(e)\<close>.
  Every handler of the file is \<^verbatim>\<open>except Exception\<close>; interpreter signals that are not
  instances of \<^verbatim>\<open>Exception\<close> (\<^verbatim>\<open>KeyboardInterrupt\<close>, \<^verbatim>\<open>SystemExit\<close>) are not raised by
  the collaborators and are left out.
\<close>

datatype exn = Exception (exn_class: string) (message: string)

text \<open>
  A job posting is whatever dictionary \<^verbatim>\<open>chain.extract_jobs\<close> returns: string keys and
  dynamically typed values. The dictionary is an association list read with \<^verbatim>\<open>.get\<close>.
\<close>

datatype pyval =
    PNone
  | PBool bool
  | PInt int
  | PStr string
  | PList "pyval list"
  | PDict "(string \<times> pyval) list"

type_synonym job = "(string \<times> pyval) list"

type_synonym link = string

text \<open>\<^verbatim>\<open>job.get(key, default)\<close>\<close>

definition dict_get :: "job \<Rightarrow> string \<Rightarrow> pyval \<Rightarrow> pyval" where
  "dict_get d key dflt = (case map_of d key of None \<Rightarrow> dflt | Some v \<Rightarrow> v)"

text \<open>Truth value of an object, as \<^verbatim>\<open>if skills:\<close> tests it.\<close>

fun truthy :: "pyval \<Rightarrow> bool" where
  "truthy PNone = False"
| "truthy (PBool b) = b"
| "truthy (PInt i) = (i \<noteq> 0)"
| "truthy (PStr s) = (s \<noteq> [])"
| "truthy (PList xs) = (xs \<noteq> [])"
| "truthy (PDict kvs) = (kvs \<noteq> [])"

text \<open>\<^verbatim>\<open>len(x)\<close>: a \<^verbatim>\<open>TypeError\<close> for an object without a length.\<close>

fun py_len :: "pyval \<Rightarrow> exn + nat" where
  "py_len (PStr s) = Inr (length s)"
| "py_len (PList xs) = Inr (length xs)"
| "py_len (PDict kvs) = Inr (length kvs)"
| "py_len PNone = Inl (Exception ''TypeError'' ''object of type 'NoneType' has no len()'')"
| "py_len (PBool b) = Inl (Exception ''TypeError'' ''object of type 'bool' has no len()'')"
| "py_len (PInt i) = Inl (Exception ''TypeError'' ''object of type 'int' has no len()'')"

text \<open>
  The items of \<^verbatim>\<open>skills[:5]\<close>: the first five elements of a list, the first five
  characters of a string. A dictionary cannot be indexed by a slice: a \<^verbatim>\<open>TypeError\<close>
  up to Python 3.11 (from 3.12 a slice is hashable and the lookup raises a \<^verbatim>\<open>KeyError\<close>
  instead); the other objects are not subscriptable.
\<close>

fun first_five :: "pyval \<Rightarrow> exn + pyval list" where
  "first_five (PList xs) = Inr (take 5 xs)"
| "first_five (PStr s) = Inr (map (\<lambda>c. PStr [c]) (take 5 s))"
| "first_five (PDict kvs) =
     Inl (Exception ''TypeError'' (''unhashable type: 'slice'' @ [CHR 0x27]))"
| "first_five PNone =
     Inl (Exception ''TypeError'' (CHR 0x27 # ''NoneType' object is not subscriptable''))"
| "first_five (PBool b) = Inl (Exception ''TypeError'' (CHR 0x27 # ''bool' object is not subscriptable''))"
| "first_five (PInt i) = Inl (Exception ''TypeError'' (CHR 0x27 # ''int' object is not subscriptable''))"

text \<open>
  \<^verbatim>\<open>st.session_state\<close>: the counter is absent until \<^verbatim>\<open>render_sidebar\<close> creates it; the
  two switches are read with \<^verbatim>\<open>.get(..., False)\<close>.
\<close>

record session =
  generated_count :: "nat option"
  show_raw_data :: bool
  show_extraction :: bool

section \<open>What a run does: collaborator calls and rendered elements\<close>

datatype notice =
    LoadFailed
  | Extracting
  | NoJobsFound
  | FoundJobs nat
  | GeneratedEmails nat
  | ErrorOccurred string
  | TryDifferentUrl
  | InvalidUrl
  | InitFailed

text \<open>
  One log per run, in program order. The first four constructors are the calls that
  leave \<^verbatim>\<open>process_url\<close> (lines 193, 209, 253, 254); the others are the Streamlit elements
  that carry data. Layout calls (columns, dividers, spinners, the progress bar, balloons,
  the static captions) are not logged. The posting number is the loop index \<^verbatim>\<open>idx\<close>.
  \<open>StCode\<close> is the email block of line 258 (\<^verbatim>\<open>language='markdown'\<close>), \<open>StCodePlain\<close> a block
  with \<^verbatim>\<open>language=None\<close> (line 169).
\<close>

datatype event =
    LoadUrl string
  | ExtractJobs string
  | QueryLinks nat pyval
  | WriteMail nat job "link list"
  | StError notice
  | StWarning notice
  | StInfo notice
  | StSuccess notice
  | StTextArea string
  | StJson job
  | StHeading nat pyval
  | StMetric pyval
  | StSkillsHeading
  | StSkillTag pyval
  | StCode string
  | StCodePlain string
  | StDownload nat string

text \<open>
  The collaborators. \<open>'c\<close> is the \<^verbatim>\<open>Chain\<close> object and \<open>'p\<close> the \<^verbatim>\<open>Portfolio\<close> object.
  The methods called inside the loop also take the loop index, so that a language model
  may answer two calls with equal arguments differently.
\<close>

record ('c, 'p) collaborators =
  new_chain :: "exn + 'c"
  new_portfolio :: "exn + 'p"
  load_portfolio :: "'p \<Rightarrow> exn + 'p"
  loader :: "string \<Rightarrow> exn + string list"
  clean_text :: "string \<Rightarrow> exn + string"
  extract_jobs :: "'c \<Rightarrow> string \<Rightarrow> exn + job list"
  query_links :: "'p \<Rightarrow> nat \<Rightarrow> pyval \<Rightarrow> exn + link list"
  write_mail :: "'c \<Rightarrow> nat \<Rightarrow> job \<Rightarrow> link list \<Rightarrow> exn + string"

section \<open>The application\<close>

text \<open>
  \<^verbatim>\<open>initialize_components\<close> (lines 52-63): build the chain, build the portfolio, load
  the portfolio; any exception is logged and raised again.
\<close>

definition initialize_components :: "('c, 'p) collaborators \<Rightarrow> exn + ('c \<times> 'p)" where
  "initialize_components w =
     (case new_chain w of
        Inl e \<Rightarrow> Inl e
      | Inr chain \<Rightarrow>
          (case new_portfolio w of
             Inl e \<Rightarrow> Inl e
           | Inr portfolio \<Rightarrow>
               (case load_portfolio w portfolio of
                  Inl e \<Rightarrow> Inl e
                | Inr loaded \<Rightarrow> Inr (chain, loaded))))"

text \<open>
  \<^verbatim>\<open>load_and_process_url\<close> (lines 67-93): the body under the cache decorator. The
  loader's page list is \<open>page_data\<close>; an element is its \<^verbatim>\<open>page_content\<close>. Every exception
  becomes \<open>None\<close>. The decorator memoizes the result per URL, so a run that hits the cache
  receives what an earlier evaluation of this body returned.
\<close>

definition load_and_process_url :: "('c, 'p) collaborators \<Rightarrow> string \<Rightarrow> string option" where
  "load_and_process_url w url =
     (case loader w url of
        Inl e \<Rightarrow> None
      | Inr page_data \<Rightarrow>
          (case page_data of
             [] \<Rightarrow> None
           | raw_content # _ \<Rightarrow>
               (case clean_text w raw_content of
                  Inl e \<Rightarrow> None
                | Inr cleaned_content \<Rightarrow> Some cleaned_content)))"

text \<open>
  Lines 243-249: the skill tags of one posting. The caption is rendered before
  \<^verbatim>\<open>len(skills)\<close> is evaluated.
\<close>

definition skill_tags :: "pyval \<Rightarrow> event list \<times> exn option" where
  "skill_tags skills =
     (if truthy skills then
        (case py_len skills of
           Inl e \<Rightarrow> ([StSkillsHeading], Some e)
         | Inr n \<Rightarrow>
             (case first_five skills of
                Inl e \<Rightarrow> ([StSkillsHeading], Some e)
              | Inr shown \<Rightarrow> (StSkillsHeading # map StSkillTag shown, None)))
      else ([], None))"

text \<open>
  \<^verbatim>\<open>st.metric("Experience", exp)\<close> (line 240): Streamlit accepts an int (a bool
  is one), a float, a str or \<^verbatim>\<open>None\<close> as the value and raises a \<^verbatim>\<open>TypeError\<close> for any
  other object, here a list or a dictionary. The text of that error quotes the value and is
  abbreviated.
\<close>

fun st_metric :: "pyval \<Rightarrow> exn + event" where
  "st_metric (PList xs) = Inl (Exception ''TypeError'' ''value is not an accepted type'')"
| "st_metric (PDict kvs) = Inl (Exception ''TypeError'' ''value is not an accepted type'')"
| "st_metric v = Inr (StMetric v)"

text \<open>
  Lines 233-273: the loop body for posting \<open>idx\<close>. The result is what was logged and
  the exception that left the body, if any. The heading is rendered first (line 237); an
  experience value that \<^verbatim>\<open>st.metric\<close> refuses ends the body there.
\<close>

definition email_for_job ::
  "('c, 'p) collaborators \<Rightarrow> 'c \<Rightarrow> 'p \<Rightarrow> nat \<Rightarrow> job \<Rightarrow> event list \<times> exn option" where
  "email_for_job w chain portfolio idx job =
     (let heading = StHeading idx (dict_get job ''role'' (PStr ''Position''))
      in case st_metric (dict_get job ''experience'' (PStr ''N/A'')) of
           Inl e \<Rightarrow> ([heading], Some e)
         | Inr metric \<Rightarrow>
             (let header = [heading, metric];
                  skills = dict_get job ''skills'' (PList [])
              in case skill_tags skills of
                   (tags, Some e) \<Rightarrow> (header @ tags, Some e)
                 | (tags, None) \<Rightarrow>
                     (case query_links w portfolio idx skills of
                        Inl e \<Rightarrow> (header @ tags @ [QueryLinks idx skills], Some e)
                      | Inr links \<Rightarrow>
                          (case write_mail w chain idx job links of
                             Inl e \<Rightarrow>
                               (header @ tags @
                                  [QueryLinks idx skills, WriteMail idx job links],
                                Some e)
                           | Inr email \<Rightarrow>
                               (header @ tags @
                                  [QueryLinks idx skills, WriteMail idx job links,
                                   StCode email, StDownload idx email],
                                None)))))"

text \<open>Line 232: \<^verbatim>\<open>for idx, job in enumerate(jobs, 1)\<close>; an exception leaves the loop.\<close>

fun generate_emails ::
  "('c, 'p) collaborators \<Rightarrow> 'c \<Rightarrow> 'p \<Rightarrow> nat \<Rightarrow> job list \<Rightarrow> event list \<times> exn option" where
  "generate_emails w chain portfolio idx [] = ([], None)"
| "generate_emails w chain portfolio idx (job # jobs) =
     (case email_for_job w chain portfolio idx job of
        (evs, Some e) \<Rightarrow> (evs, Some e)
      | (evs, None) \<Rightarrow>
          (case generate_emails w chain portfolio (Suc idx) jobs of
             (evs', r) \<Rightarrow> (evs @ evs', r)))"

text \<open>
  Line 276 on a session without the counter: the \<^verbatim>\<open>AttributeError\<close> of
  \<^verbatim>\<open>st.session_state\<close>, with Streamlit's text.
\<close>

definition missing_counter :: exn where
  "missing_counter =
     Exception ''AttributeError''
       (''st.session_state has no attribute '' @ [CHR 0x22] @ ''generated_count'' @
        [CHR 0x22] @ ''. Did you forget to initialize it? More info: '' @
        ''https://docs.streamlit.io/develop/concepts/architecture/session-state#initialization'')"

text \<open>
  Lines 189-280: the \<^verbatim>\<open>try\<close> block of \<^verbatim>\<open>process_url\<close>. The third component is the
  exception that leaves the block; both \<^verbatim>\<open>return\<close> statements leave it without one.
\<close>

definition process_url_try ::
  "('c, 'p) collaborators \<Rightarrow> session \<Rightarrow> string \<Rightarrow> 'c \<Rightarrow> 'p \<Rightarrow>
     event list \<times> session \<times> exn option" where
  "process_url_try w s url chain portfolio =
     (case load_and_process_url w url of
        None \<Rightarrow> ([LoadUrl url, StError LoadFailed], s, None)
      | Some cleaned_data \<Rightarrow>
          if cleaned_data = [] then ([LoadUrl url, StError LoadFailed], s, None)
          else
            (let shown = LoadUrl url #
                   (if show_raw_data s then [StTextArea cleaned_data] else []) @
                   [StInfo Extracting, ExtractJobs cleaned_data]
             in case extract_jobs w chain cleaned_data of
                  Inl e \<Rightarrow> (shown, s, Some e)
                | Inr jobs \<Rightarrow>
                    if jobs = [] then (shown @ [StWarning NoJobsFound], s, None)
                    else
                      (let found = shown @ [StSuccess (FoundJobs (length jobs))] @
                             (if show_extraction s then map StJson jobs else [])
                       in case generate_emails w chain portfolio 1 jobs of
                            (evs, Some e) \<Rightarrow> (found @ evs, s, Some e)
                          | (evs, None) \<Rightarrow>
                              (case generated_count s of
                                 None \<Rightarrow> (found @ evs, s, Some missing_counter)
                               | Some n \<Rightarrow>
                                   (found @ evs @ [StSuccess (GeneratedEmails (length jobs))],
                                    s\<lparr>generated_count := Some (n + length jobs)\<rparr>,
                                    None)))))"

text \<open>How a call ends.\<close>

datatype outcome = Returned | Raised exn

record result =
  outcome :: outcome
  events :: "event list"
  session_after :: session

text \<open>
  \<^verbatim>\<open>process_url\<close> (lines 179-285): the \<^verbatim>\<open>try\<close> block and its handler, which renders
  \<^verbatim>\<open>str(e)\<close> and a hint.
\<close>

definition process_url ::
  "('c, 'p) collaborators \<Rightarrow> session \<Rightarrow> string \<Rightarrow> 'c \<Rightarrow> 'p \<Rightarrow> result" where
  "process_url w s url chain portfolio =
     (case process_url_try w s url chain portfolio of
        (evs, s', None) \<Rightarrow> \<lparr>outcome = Returned, events = evs, session_after = s'\<rparr>
      | (evs, s', Some e) \<Rightarrow>
          \<lparr>outcome = Returned,
           events = evs @ [StError (ErrorOccurred (message e)), StInfo TryDifferentUrl],
           session_after = s'\<rparr>)"

text \<open>
  What the visitor entered: the URL field, the button, and the two check boxes of the
  sidebar.
\<close>

record page_input =
  url_input :: string
  submit_button :: bool
  raw_checkbox :: bool
  extraction_checkbox :: bool

text \<open>
  \<^verbatim>\<open>render_sidebar\<close> (lines 95-128): creates the counter when it is absent, shows it,
  and stores the two check boxes.
\<close>

definition render_sidebar :: "page_input \<Rightarrow> session \<Rightarrow> event list \<times> session" where
  "render_sidebar inp s =
     (let n = (case generated_count s of None \<Rightarrow> 0 | Some n \<Rightarrow> n)
      in ([StMetric (PInt (int n))],
          \<lparr>generated_count = Some n,
           show_raw_data = raw_checkbox inp,
           show_extraction = extraction_checkbox inp\<rparr>))"

text \<open>Lines 163-167: the example URLs shown under the input field.\<close>

definition example_urls :: "string list" where
  "example_urls =
     [''https://jobs.nike.com/job/R-33460'',
      ''https://www.google.com/about/careers/applications/'',
      ''https://careers.microsoft.com/'']"

text \<open>
  \<^verbatim>\<open>render_main_interface\<close> (lines 130-177): the example URLs are rendered; on a
  click, the URL is checked
  (\<^verbatim>\<open>not url_input or not url_input.startswith(('http://', 'https://'))\<close>) and handed to
  \<^verbatim>\<open>process_url\<close>.
\<close>

definition render_main_interface ::
  "('c, 'p) collaborators \<Rightarrow> page_input \<Rightarrow> session \<Rightarrow> 'c \<Rightarrow> 'p \<Rightarrow> result" where
  "render_main_interface w inp s chain portfolio =
     (let examples = map StCodePlain example_urls
      in if submit_button inp then
           (if url_input inp = [] \<or>
               \<not> (prefix ''http://'' (url_input inp) \<or> prefix ''https://'' (url_input inp))
            then \<lparr>outcome = Returned, events = examples @ [StError InvalidUrl],
                  session_after = s\<rparr>
            else (let r = process_url w s (url_input inp) chain portfolio
                  in r\<lparr>events := examples @ events r\<rparr>))
         else \<lparr>outcome = Returned, events = examples, session_after = s\<rparr>)"

text \<open>
  \<^verbatim>\<open>run\<close> (lines 287-310): components, sidebar, main interface; the handler renders
  that the application failed to initialize.
\<close>

definition run :: "('c, 'p) collaborators \<Rightarrow> page_input \<Rightarrow> session \<Rightarrow> result" where
  "run w inp s =
     (case initialize_components w of
        Inl e \<Rightarrow> \<lparr>outcome = Returned, events = [StError InitFailed], session_after = s\<rparr>
      | Inr (chain, portfolio) \<Rightarrow>
          (case render_sidebar inp s of
             (side, s1) \<Rightarrow>
               (let r = render_main_interface w inp s1 chain portfolio
                in case outcome r of
                     Returned \<Rightarrow> r\<lparr>events := side @ events r\<rparr>
                   | Raised e \<Rightarrow>
                       \<lparr>outcome = Returned,
                        events = side @ events r @ [StError InitFailed],
                        session_after = session_after r\<rparr>)))"

text \<open>
  \<^verbatim>\<open>main\<close> (lines 313-316): the constructor initializes the components outside any
  handler (line 40), then \<^verbatim>\<open>run\<close> is called; its own call of
  \<^verbatim>\<open>initialize_components\<close> is answered by the resource cache.
\<close>

definition main :: "('c, 'p) collaborators \<Rightarrow> page_input \<Rightarrow> session \<Rightarrow> result" where
  "main w inp s =
     (case initialize_components w of
        Inl e \<Rightarrow> \<lparr>outcome = Raised e, events = [], session_after = s\<rparr>
      | Inr _ \<Rightarrow> run w inp s)"

section \<open>The stages of a run\<close>

text \<open>The calls that leave \<^verbatim>\<open>process_url\<close>, in the order they were made.\<close>

fun is_call :: "event \<Rightarrow> bool" where
  "is_call (LoadUrl _) = True"
| "is_call (ExtractJobs _) = True"
| "is_call (QueryLinks _ _) = True"
| "is_call (WriteMail _ _ _) = True"
| "is_call _ = False"

definition calls :: "event list \<Rightarrow> event list" where
  "calls evs = filter is_call evs"

text \<open>
  The stages of one run. \<open>Normalized\<close> is reached by the call of
  \<^verbatim>\<open>load_and_process_url\<close>, whose last step is \<^verbatim>\<open>clean_text\<close>; \<open>Matched i\<close> and
  \<open>Composed i\<close> are reached by \<^verbatim>\<open>query_links\<close> and \<^verbatim>\<open>write_mail\<close> for posting \<open>i\<close>.
\<close>

datatype stage = Start | Normalized | Extracted | Matched nat | Composed nat

fun step :: "stage \<Rightarrow> event \<Rightarrow> stage option" where
  "step Start (LoadUrl _) = Some Normalized"
| "step Normalized (ExtractJobs _) = Some Extracted"
| "step Extracted (QueryLinks i _) = (if i = 1 then Some (Matched i) else None)"
| "step (Matched i) (WriteMail k _ _) = (if k = i then Some (Composed i) else None)"
| "step (Composed i) (QueryLinks k _) = (if k = Suc i then Some (Matched k) else None)"
| "step _ _ = None"

text \<open>A sequence of calls that takes one transition after the other, none skipped.\<close>

fun in_order :: "stage \<Rightarrow> event list \<Rightarrow> bool" where
  "in_order st [] = True"
| "in_order st (ev # evs) =
     (case step st ev of None \<Rightarrow> False | Some st' \<Rightarrow> in_order st' evs)"

text \<open>The stage reached when the run stopped.\<close>

fun reached :: "stage \<Rightarrow> event list \<Rightarrow> stage" where
  "reached st [] = st"
| "reached st (ev # evs) =
     (case step st ev of None \<Rightarrow> st | Some st' \<Rightarrow> reached st' evs)"

fun is_email :: "event \<Rightarrow> bool" where
  "is_email (StCode _) = True"
| "is_email _ = False"

section \<open>Vocabulary for the rendered log\<close>

text \<open>
  The skills, the experience and the heading of a posting, as the loop body reads them;
  \<open>header_of\<close> is what is rendered above the tags when \<^verbatim>\<open>st.metric\<close> accepts the
  experience.
\<close>

abbreviation skills_of :: "job \<Rightarrow> pyval" where
  "skills_of job \<equiv> dict_get job ''skills'' (PList [])"

abbreviation experience_of :: "job \<Rightarrow> pyval" where
  "experience_of job \<equiv> dict_get job ''experience'' (PStr ''N/A'')"

abbreviation heading_of :: "nat \<Rightarrow> job \<Rightarrow> event" where
  "heading_of idx job \<equiv> StHeading idx (dict_get job ''role'' (PStr ''Position''))"

abbreviation header_of :: "nat \<Rightarrow> job \<Rightarrow> event list" where
  "header_of idx job \<equiv> [heading_of idx job, StMetric (experience_of job)]"

text \<open>
  The parts of the log of \<^verbatim>\<open>process_url\<close>: what is rendered up to the extraction, up to
  the loop, by the handler, and after the loop; and the session after the loop.
\<close>

definition shown_events :: "session \<Rightarrow> string \<Rightarrow> string \<Rightarrow> event list" where
  "shown_events s url cleaned =
     LoadUrl url # (if show_raw_data s then [StTextArea cleaned] else []) @
       [StInfo Extracting, ExtractJobs cleaned]"

definition found_events :: "session \<Rightarrow> string \<Rightarrow> string \<Rightarrow> job list \<Rightarrow> event list" where
  "found_events s url cleaned jobs =
     shown_events s url cleaned @ [StSuccess (FoundJobs (length jobs))] @
       (if show_extraction s then map StJson jobs else [])"

definition error_report :: "exn \<Rightarrow> event list" where
  "error_report e = [StError (ErrorOccurred (message e)), StInfo TryDifferentUrl]"

definition closing :: "session \<Rightarrow> job list \<Rightarrow> exn option \<Rightarrow> event list" where
  "closing s jobs r =
     (case r of
        Some e \<Rightarrow> error_report e
      | None \<Rightarrow>
          (case generated_count s of
             None \<Rightarrow> error_report missing_counter
           | Some n \<Rightarrow> [StSuccess (GeneratedEmails (length jobs))]))"

definition counted :: "session \<Rightarrow> job list \<Rightarrow> exn option \<Rightarrow> session" where
  "counted s jobs r =
     (case r of
        Some e \<Rightarrow> s
      | None \<Rightarrow>
          (case generated_count s of
             None \<Rightarrow> s
           | Some n \<Rightarrow> s\<lparr>generated_count := Some (n + length jobs)\<rparr>))"

section \<open>Example pages\<close>

definition backend_job :: job where
  "backend_job =
     [(''role'', PStr ''Senior Backend Engineer''),
      (''experience'', PStr ''5+ years''),
      (''skills'', PList [PStr ''Python'', PStr ''Go'', PStr ''Kubernetes''])]"

definition analyst_job :: job where
  "analyst_job = [(''role'', PStr ''Data Analyst''), (''skills'', PList [PStr ''SQL''])]"

definition portfolio_link :: link where
  "portfolio_link = ''https://example.com/python-portfolio''"

definition careers_url :: string where
  "careers_url = ''https://example.com/careers''"

definition fresh_session :: session where
  "fresh_session =
     \<lparr>generated_count = Some 0, show_raw_data = False, show_extraction = False\<rparr>"

text \<open>A site whose page lists no job, and one whose page lists two.\<close>

definition about_page :: "(unit, unit) collaborators" where
  "about_page =
     \<lparr>new_chain = Inr (), new_portfolio = Inr (), load_portfolio = (\<lambda>p. Inr p),
      loader = (\<lambda>url. Inr [''  About   us '']),
      clean_text = (\<lambda>raw. Inr ''About us''),
      extract_jobs = (\<lambda>chain text. Inr []),
      query_links = (\<lambda>p idx skills. Inr []),
      write_mail = (\<lambda>chain idx job links. Inr ''Dear team'')\<rparr>"

definition careers_page :: "(unit, unit) collaborators" where
  "careers_page =
     \<lparr>new_chain = Inr (), new_portfolio = Inr (), load_portfolio = (\<lambda>p. Inr p),
      loader = (\<lambda>url. Inr [''raw page'']),
      clean_text = (\<lambda>raw. Inr ''two jobs''),
      extract_jobs = (\<lambda>chain text. Inr [backend_job, analyst_job]),
      query_links = (\<lambda>p idx skills. Inr [portfolio_link]),
      write_mail = (\<lambda>chain idx job links. Inr ''Dear hiring manager'')\<rparr>"

definition composition_error :: exn where
  "composition_error = Exception ''CompositionError'' ''empty email''"

definition first_mail_fails :: "(unit, unit) collaborators" where
  "first_mail_fails =
     careers_page\<lparr>write_mail :=
       (\<lambda>chain idx job links.
          if idx = 1 then Inl composition_error else Inr ''Dear hiring manager'')\<rparr>"

text \<open>Sites where one collaborator fails.\<close>

definition unreachable_site :: "(unit, unit) collaborators" where
  "unreachable_site =
     careers_page\<lparr>loader := (\<lambda>url. Inl (Exception ''ConnectionError'' ''timed out''))\<rparr>"

definition broken_cleaner :: "(unit, unit) collaborators" where
  "broken_cleaner =
     careers_page\<lparr>clean_text := (\<lambda>raw. Inl (Exception ''TypeError'' ''expected string''))\<rparr>"

definition garbled_answer :: "(unit, unit) collaborators" where
  "garbled_answer =
     careers_page\<lparr>extract_jobs :=
       (\<lambda>chain cleaned. Inl (Exception ''ExtractionError'' ''no payload found''))\<rparr>"

definition no_catalog :: "(unit, unit) collaborators" where
  "no_catalog =
     careers_page\<lparr>query_links :=
       (\<lambda>p idx skills. Inl (Exception ''CatalogUnavailableError'' ''catalog not loaded''))\<rparr>"

definition visitor_click :: page_input where
  "visitor_click =
     \<lparr>url_input = careers_url, submit_button = True,
      raw_checkbox = False, extraction_checkbox = False\<rparr>"

definition second_mail_fails :: "(unit, unit) collaborators" where
  "second_mail_fails =
     careers_page\<lparr>
       clean_text := (\<lambda>raw. Inr ''three jobs''),
       extract_jobs := (\<lambda>chain cleaned. Inr [analyst_job, backend_job, analyst_job]),
       write_mail :=
         (\<lambda>chain idx job links.
            if idx = 2 then Inl composition_error else Inr ''Dear hiring manager'')\<rparr>"

section \<open>The portfolio catalog\<close>

text \<open>
  \<^verbatim>\<open>portfolio.py\<close> is not among the sources; \<^verbatim>\<open>main.py\<close> only calls
  \<^verbatim>\<open>load_portfolio\<close> and \<^verbatim>\<open>query_links\<close>. The definitions of this section follow the
  spec (sections 3, 4.3 and 7).
\<close>

text \<open>Modelled from the spec: the error taxonomy of section 7.\<close>

datatype error = ExtractionError | CatalogUnavailableError | CompositionError

text \<open>
  Modelled from the spec: a PortfolioEntry (section 3), its skill tags in the order of the
  catalog source and its link.
\<close>

record PortfolioEntry =
  techstack :: "string list"
  link :: string

text \<open>
  Modelled from the spec: the embedding that builds the SimilarityIndex and embeds a
  query. The spec fixes neither the query representation, nor the embedding model, nor
  the metric, so the three are parameters; a larger similarity value is a nearer entry.
\<close>

record ('v, 's) embedding =
  represent :: "string list \<Rightarrow> string"
  embed :: "string \<Rightarrow> 'v"
  similarity :: "'v \<Rightarrow> 'v \<Rightarrow> 's"

text \<open>
  Modelled from the spec: the catalog snapshot with its SimilarityIndex, every entry
  beside its vector, in insertion order; \<open>None\<close> before \<open>load\<close>.
\<close>

type_synonym 'v catalog = "(PortfolioEntry \<times> 'v) list option"

definition load :: "('v, 's) embedding \<Rightarrow> PortfolioEntry list \<Rightarrow> 'v catalog" where
  "load emb source =
     Some (map (\<lambda>entry. (entry, embed emb (represent emb (techstack entry)))) source)"

text \<open>
  Modelled from the spec: retrieval in descending similarity, ties in catalog insertion
  order. \<open>place\<close> puts an entry in front of the first ranked entry that is not more
  similar than it; \<open>rank\<close> places the entries from the last to the first, so that an
  earlier entry ends in front of a later one of equal similarity.
\<close>

fun place :: "('a \<Rightarrow> 's::linorder) \<Rightarrow> 'a \<Rightarrow> 'a list \<Rightarrow> 'a list" where
  "place score x [] = [x]"
| "place score x (y # ys) =
     (if score y \<le> score x then x # y # ys else y # place score x ys)"

fun rank :: "('a \<Rightarrow> 's::linorder) \<Rightarrow> 'a list \<Rightarrow> 'a list" where
  "rank score [] = []"
| "rank score (x # xs) = place score x (rank score xs)"

text \<open>Modelled from the spec: no duplicate links; the first occurrence of a link stays.\<close>

definition first_occurrences :: "'a list \<Rightarrow> 'a list" where
  "first_occurrences xs = rev (remdups (rev xs))"

text \<open>
  Modelled from the spec: the similarity of an indexed entry to the query built from the
  skill sequence, with the embedding that built the index.
\<close>

definition query_score ::
  "('v, 's) embedding \<Rightarrow> string list \<Rightarrow> PortfolioEntry \<times> 'v \<Rightarrow> 's" where
  "query_score emb skills = (\<lambda>(entry, v). similarity emb (embed emb (represent emb skills)) v)"

text \<open>Modelled from the spec: the \<open>topK\<close> nearest entries.\<close>

definition matched ::
  "('v, 's::linorder) embedding \<Rightarrow> (PortfolioEntry \<times> 'v) list \<Rightarrow> string list \<Rightarrow> nat \<Rightarrow>
     (PortfolioEntry \<times> 'v) list" where
  "matched emb indexed skills topK = take topK (rank (query_score emb skills) indexed)"

text \<open>
  Modelled from the spec: \<open>queryLinks\<close> (section 4.3). The catalog is tested first, as
  the spec makes it a precondition of every posting (any call fails on a catalog that is
  empty or not loaded); then the empty skill sequence; then the links of the matched
  entries.
\<close>

definition queryLinks ::
  "('v, 's::linorder) embedding \<Rightarrow> 'v catalog \<Rightarrow> string list \<Rightarrow> nat \<Rightarrow> error + string list" where
  "queryLinks emb cat skills topK =
     (case cat of
        None \<Rightarrow> Inl CatalogUnavailableError
      | Some indexed \<Rightarrow>
          if indexed = [] then Inl CatalogUnavailableError
          else if skills = [] then Inr []
          else Inr (first_occurrences
                      (map (\<lambda>(entry, v). link entry) (matched emb indexed skills topK))))"

text \<open>
  Modelled from the spec: the failures of the taxonomy as the exceptions that reach
  \<^verbatim>\<open>process_url\<close>. The spec gives an error no text; the text is the class name.
\<close>

fun raise_error :: "error \<Rightarrow> exn" where
  "raise_error ExtractionError = Exception ''ExtractionError'' ''ExtractionError''"
| "raise_error CatalogUnavailableError =
     Exception ''CatalogUnavailableError'' ''CatalogUnavailableError''"
| "raise_error CompositionError = Exception ''CompositionError'' ''CompositionError''"

text \<open>
  Modelled from the spec: the skill sequence that \<open>queryLinks\<close> receives for the object
  that \<^verbatim>\<open>main.py\<close> passes (line 253): the strings of a list, the characters of a string,
  nothing otherwise.
\<close>

fun skill_names :: "pyval \<Rightarrow> string list" where
  "skill_names (PList xs) = concat (map (\<lambda>v. case v of PStr name \<Rightarrow> [name] | _ \<Rightarrow> []) xs)"
| "skill_names (PStr s) = map (\<lambda>c. [c]) s"
| "skill_names v = []"

text \<open>
  Modelled from the spec: \<^verbatim>\<open>portfolio.query_links(skills)\<close> as \<^verbatim>\<open>main.py\<close> calls it, when
  the portfolio is the catalog of section 4.3: \<open>queryLinks\<close> with the default
  \<open>topK = 2\<close>, its failure raised as an exception.
\<close>

definition portfolio_query_links ::
  "('v, 's::linorder) embedding \<Rightarrow> 'v catalog \<Rightarrow> nat \<Rightarrow> pyval \<Rightarrow> exn + link list" where
  "portfolio_query_links emb cat idx skills =
     (case queryLinks emb cat (skill_names skills) 2 of
        Inl err \<Rightarrow> Inl (raise_error err)
      | Inr links \<Rightarrow> Inr links)"

text \<open>A list in descending order of its scores.\<close>

abbreviation descending :: "('a \<Rightarrow> 's::linorder) \<Rightarrow> 'a list \<Rightarrow> bool" where
  "descending score xs \<equiv> sorted_wrt (\<lambda>a b. score b \<le> score a) xs"

text \<open>A catalog of four entries, indexed by the length of the tag text.\<close>

definition text_length :: "(nat, nat) embedding" where
  "text_length =
     \<lparr>represent = concat, embed = length, similarity = (\<lambda>q v. min q v)\<rparr>"

definition sample_catalog :: "PortfolioEntry list" where
  "sample_catalog =
     [\<lparr>techstack = [''Python'', ''Go''], link = ''https://example.com/python''\<rparr>,
      \<lparr>techstack = [''React''], link = ''https://example.com/react''\<rparr>,
      \<lparr>techstack = [''Kotlin'', ''C''], link = ''https://example.com/python''\<rparr>,
      \<lparr>techstack = [''Terraform''], link = ''https://example.com/infra''\<rparr>]"

definition sample_index :: "(PortfolioEntry \<times> nat) list" where
  "sample_index =
     [(\<lparr>techstack = [''Python'', ''Go''], link = ''https://example.com/python''\<rparr>, 8),
      (\<lparr>techstack = [''React''], link = ''https://example.com/react''\<rparr>, 5),
      (\<lparr>techstack = [''Kotlin'', ''C''], link = ''https://example.com/python''\<rparr>, 7),
      (\<lparr>techstack = [''Terraform''], link = ''https://example.com/infra''\<rparr>, 9)]"

text \<open>
  The careers page, with a portfolio that is the catalog of the spec: it is not loaded,
  and loading it fails.
\<close>

definition catalog_not_loaded :: "(unit, nat catalog) collaborators" where
  "catalog_not_loaded =
     \<lparr>new_chain = Inr (), new_portfolio = Inr None,
      load_portfolio =
        (\<lambda>p. Inl (Exception ''CatalogUnavailableError'' ''cannot read the catalog'')),
      loader = (\<lambda>url. Inr [''raw page'']),
      clean_text = (\<lambda>raw. Inr ''two jobs''),
      extract_jobs = (\<lambda>chain text. Inr [backend_job, analyst_job]),
      query_links = portfolio_query_links text_length,
      write_mail = (\<lambda>chain idx job links. Inr ''Dear hiring manager'')\<rparr>"

section \<open>The text normalizer\<close>

text \<open>
  \<^verbatim>\<open>utils.py\<close> is not among the sources; \<^verbatim>\<open>main.py\<close> only calls \<^verbatim>\<open>clean_text\<close> on the
  loaded page (line 89). The definitions of this section follow the spec (sections 2 and
  4.1), where the function is called \<open>normalize\<close>. The spec does not say what a script or a
  markup remnant is, so their removal is not part of the model: the model covers the
  whitespace and the control characters.
\<close>

text \<open>
  Modelled from the spec: the whitespace characters that are collapsed (section 4.1), taken
  as space, tab, line feed, vertical tab, form feed and carriage return.
\<close>

definition is_whitespace :: "char \<Rightarrow> bool" where
  "is_whitespace c =
     (c = CHR '' '' \<or> c = CHR 0x09 \<or> c = CHR 0x0A \<or> c = CHR 0x0B \<or> c = CHR 0x0C \<or>
      c = CHR 0x0D)"

text \<open>
  Modelled from the spec: the control characters outside the printable range (section
  4.1), taken as the codes below 32 and the code 127.
\<close>

definition is_control :: "char \<Rightarrow> bool" where
  "is_control c = ((of_char c :: nat) < 32 \<or> (of_char c :: nat) = 127)"

text \<open>
  Modelled from the spec: control characters are stripped; the whitespace among them is
  kept for the next step, so that a tab or a line break still separates two words.
\<close>

definition strip_control :: "string \<Rightarrow> string" where
  "strip_control raw = filter (\<lambda>c. is_whitespace c \<or> \<not> is_control c) raw"

text \<open>
  Modelled from the spec: collapsed whitespace. Every run of whitespace becomes one space;
  \<open>in_gap\<close> says that the character before was whitespace.
\<close>

fun collapse :: "bool \<Rightarrow> string \<Rightarrow> string" where
  "collapse in_gap [] = []"
| "collapse in_gap (c # cs) =
     (if is_whitespace c then
        (if in_gap then collapse True cs else CHR '' '' # collapse True cs)
      else c # collapse False cs)"

text \<open>
  Modelled from the spec: no leading and no trailing whitespace. After \<open>collapse\<close> the only
  whitespace left is the space.
\<close>

definition trim :: "string \<Rightarrow> string" where
  "trim s =
     rev (dropWhile (\<lambda>c. c = CHR '' '') (rev (dropWhile (\<lambda>c. c = CHR '' '') s)))"

text \<open>
  Modelled from the spec: \<open>normalize(raw: string) -> string\<close> of section 4.1, the function
  \<^verbatim>\<open>main.py\<close> calls as \<^verbatim>\<open>clean_text\<close>. It is a total function on strings: there is no error
  value in its result type.
\<close>

definition normalize_text :: "string \<Rightarrow> string" where
  "normalize_text raw = trim (collapse False (strip_control raw))"

text \<open>Two spaces in a row; a text is single spaced when it has none.\<close>

definition double_space :: "char \<Rightarrow> char \<Rightarrow> bool" where
  "double_space a b = (a = CHR '' '' \<and> b = CHR '' '')"

abbreviation single_spaced :: "string \<Rightarrow> bool" where
  "single_spaced s \<equiv> successively (\<lambda>a b. \<not> double_space a b) s"

text \<open>A page of whitespace only, and a page with line breaks, a tab and control characters.\<close>

definition blank_page :: string where
  "blank_page = [CHR '' '', CHR 0x09, CHR 0x0A, CHR '' '', CHR 0x0D]"

definition noisy_page :: string where
  "noisy_page =
     [CHR 0x0A, CHR '' ''] @ ''Senior'' @ [CHR 0x09, CHR 0x01, CHR '' ''] @ ''Engineer'' @
     [CHR 0x7F, CHR 0x0D, CHR 0x0A]"


section \<open>Facts about one posting and about the loop\<close>

lemma skill_tags_events:
  "ev \<in> set (fst (skill_tags sk)) \<Longrightarrow> ev = StSkillsHeading \<or> (\<exists>v. ev = StSkillTag v)"
  by (auto simp: skill_tags_def split: if_splits sum.splits)

lemma st_metric_accepted: "st_metric v = Inr m \<Longrightarrow> m = StMetric v"
  by (cases v) simp_all

lemma email_for_job_cases:
  obtains
    (metric_fail) e where
      "st_metric (experience_of job) = Inl e"
      "email_for_job w c p idx job = ([heading_of idx job], Some e)"
  | (tags_fail) tags e where
      "skill_tags (skills_of job) = (tags, Some e)"
      "email_for_job w c p idx job = (header_of idx job @ tags, Some e)"
      "st_metric (experience_of job) = Inr (StMetric (experience_of job))"
  | (query_fail) tags e where
      "skill_tags (skills_of job) = (tags, None)"
      "query_links w p idx (skills_of job) = Inl e"
      "email_for_job w c p idx job =
         (header_of idx job @ tags @ [QueryLinks idx (skills_of job)], Some e)"
      "st_metric (experience_of job) = Inr (StMetric (experience_of job))"
  | (write_fail) tags links e where
      "skill_tags (skills_of job) = (tags, None)"
      "query_links w p idx (skills_of job) = Inr links"
      "write_mail w c idx job links = Inl e"
      "email_for_job w c p idx job =
         (header_of idx job @ tags @
            [QueryLinks idx (skills_of job), WriteMail idx job links], Some e)"
      "st_metric (experience_of job) = Inr (StMetric (experience_of job))"
  | (composed) tags links email where
      "skill_tags (skills_of job) = (tags, None)"
      "query_links w p idx (skills_of job) = Inr links"
      "write_mail w c idx job links = Inr email"
      "email_for_job w c p idx job =
         (header_of idx job @ tags @
            [QueryLinks idx (skills_of job), WriteMail idx job links,
             StCode email, StDownload idx email], None)"
      "st_metric (experience_of job) = Inr (StMetric (experience_of job))"
proof (cases "st_metric (experience_of job)")
  case (Inl e)
  then show ?thesis
    by (intro metric_fail[of e]) (simp_all add: email_for_job_def)
next
  case accepted: (Inr m)
  from st_metric_accepted[OF accepted]
  have metric: "st_metric (experience_of job) = Inr (StMetric (experience_of job))"
    using accepted by simp
  show ?thesis
  proof (cases "skill_tags (skills_of job)")
    case (Pair tags r)
    show ?thesis
    proof (cases r)
      case None
      show ?thesis
      proof (cases "query_links w p idx (skills_of job)")
        case (Inl e)
        with Pair None metric show ?thesis
          by (intro query_fail[of tags e]) (simp_all add: email_for_job_def)
      next
        case (Inr links)
        show ?thesis
        proof (cases "write_mail w c idx job links")
          case (Inl e)
          with Pair None Inr metric show ?thesis
            by (intro write_fail[of tags links e]) (simp_all add: email_for_job_def)
        next
          case Inr2: (Inr email)
          with Pair None Inr metric show ?thesis
            by (intro composed[of tags links email]) (simp_all add: email_for_job_def)
        qed
      qed
    next
      case (Some e)
      with Pair metric show ?thesis
        by (intro tags_fail[of tags e]) (simp_all add: email_for_job_def)
    qed
  qed
qed

lemma tags_not_call: "skill_tags sk = (tags, r) \<Longrightarrow> calls tags = []"
  by (auto simp: skill_tags_def calls_def filter_empty_conv split: if_splits sum.splits)

lemma calls_append: "calls (xs @ ys) = calls xs @ calls ys"
  by (simp add: calls_def)

lemma in_order_append:
  "in_order st (xs @ ys) = (in_order st xs \<and> in_order (reached st xs) ys)"
  by (induction xs arbitrary: st) (auto split: option.splits)

lemma calls_simps:
  "calls [] = []"
  "calls (ev # evs) = (if is_call ev then ev # calls evs else calls evs)"
  by (simp_all add: calls_def)

lemma in_order_generate_emails:
  "(\<And>sk. step st (QueryLinks idx sk) = Some (Matched idx)) \<Longrightarrow>
     in_order st (calls (fst (generate_emails w c p idx jobs)))"
proof (induction jobs arbitrary: st idx)
  case Nil
  show ?case by (simp add: calls_simps)
next
  case (Cons job jobs)
  have nxt: "\<And>sk. step (Composed idx) (QueryLinks (Suc idx) sk) = Some (Matched (Suc idx))"
    by simp
  show ?case
  proof (cases rule: email_for_job_cases[where job=job and w=w and c=c and p=p and idx=idx])
    case (metric_fail e)
    then show ?thesis by (simp add: calls_simps)
  next
    case (tags_fail tags e)
    then show ?thesis
      by (simp add: calls_append calls_simps tags_not_call[OF tags_fail(1)])
  next
    case (query_fail tags e)
    then show ?thesis using Cons.prems
      by (simp add: calls_append calls_simps tags_not_call[OF query_fail(1)])
  next
    case (write_fail tags links e)
    then show ?thesis using Cons.prems
      by (simp add: calls_append calls_simps tags_not_call[OF write_fail(1)])
  next
    case (composed tags links email)
    obtain evs' r where rest: "generate_emails w c p (Suc idx) jobs = (evs', r)"
      by (cases "generate_emails w c p (Suc idx) jobs")
    from Cons.IH[OF nxt] rest have "in_order (Composed idx) (calls evs')" by simp
    with composed rest Cons.prems show ?thesis
      by (simp add: calls_append calls_simps tags_not_call[OF composed(1)])
  qed
qed

lemma process_url_cases:
  obtains
    (load_failed) cleaned_data where
      "load_and_process_url w url = cleaned_data"
      "cleaned_data = None \<or> cleaned_data = Some []"
      "process_url w s url chain portfolio =
         \<lparr>outcome = Returned, events = [LoadUrl url, StError LoadFailed], session_after = s\<rparr>"
  | (extract_failed) cleaned e where
      "load_and_process_url w url = Some cleaned" "cleaned \<noteq> []"
      "extract_jobs w chain cleaned = Inl e"
      "process_url w s url chain portfolio =
         \<lparr>outcome = Returned, events = shown_events s url cleaned @ error_report e,
          session_after = s\<rparr>"
  | (no_jobs) cleaned where
      "load_and_process_url w url = Some cleaned" "cleaned \<noteq> []"
      "extract_jobs w chain cleaned = Inr []"
      "process_url w s url chain portfolio =
         \<lparr>outcome = Returned, events = shown_events s url cleaned @ [StWarning NoJobsFound],
          session_after = s\<rparr>"
  | (with_jobs) cleaned jobs evs r where
      "load_and_process_url w url = Some cleaned" "cleaned \<noteq> []"
      "extract_jobs w chain cleaned = Inr jobs" "jobs \<noteq> []"
      "generate_emails w chain portfolio 1 jobs = (evs, r)"
      "process_url w s url chain portfolio =
         \<lparr>outcome = Returned,
          events = found_events s url cleaned jobs @ evs @ closing s jobs r,
          session_after = counted s jobs r\<rparr>"
proof (cases "load_and_process_url w url")
  case None
  then show ?thesis
    by (intro load_failed[of None]) (simp_all add: process_url_def process_url_try_def)
next
  case (Some cleaned)
  show ?thesis
  proof (cases "cleaned = []")
    case True
    with Some show ?thesis
      by (intro load_failed[of "Some []"]) (simp_all add: process_url_def process_url_try_def)
  next
    case False
    show ?thesis
    proof (cases "extract_jobs w chain cleaned")
      case (Inl e)
      with Some False show ?thesis
        by (intro extract_failed[of cleaned e])
           (simp_all add: process_url_def process_url_try_def shown_events_def error_report_def)
    next
      case (Inr jobs)
      show ?thesis
      proof (cases "jobs = []")
        case True
        with Some False Inr show ?thesis
          by (intro no_jobs[of cleaned])
             (simp_all add: process_url_def process_url_try_def shown_events_def)
      next
        case nonempty: False
        obtain evs r where loop: "generate_emails w chain portfolio 1 jobs = (evs, r)"
          by (cases "generate_emails w chain portfolio 1 jobs")
        from Some False Inr nonempty loop show ?thesis
          by (intro with_jobs[of cleaned jobs evs r])
             (simp_all add: process_url_def process_url_try_def shown_events_def
                found_events_def error_report_def closing_def counted_def
                split: option.splits)
      qed
    qed
  qed
qed

lemma shown_events_mem:
  "ev \<in> set (shown_events s url cleaned) \<Longrightarrow>
     ev = LoadUrl url \<or> ev = StTextArea cleaned \<or> ev = StInfo Extracting \<or>
     ev = ExtractJobs cleaned"
  by (auto simp: shown_events_def split: if_splits)

lemma found_events_mem:
  "ev \<in> set (found_events s url cleaned jobs) \<Longrightarrow>
     ev = LoadUrl url \<or> ev = StTextArea cleaned \<or> ev = StInfo Extracting \<or>
     ev = ExtractJobs cleaned \<or> ev = StSuccess (FoundJobs (length jobs)) \<or>
     (\<exists>j. ev = StJson j)"
  by (auto simp: found_events_def dest: shown_events_mem split: if_splits)

lemma closing_mem:
  "ev \<in> set (closing s jobs r) \<Longrightarrow>
     (\<exists>n. ev = StError n) \<or> ev = StInfo TryDifferentUrl \<or> (\<exists>n. ev = StSuccess n)"
  by (auto simp: closing_def error_report_def split: option.splits)

lemma calls_shown_events:
  "calls (shown_events s url cleaned) = [LoadUrl url, ExtractJobs cleaned]"
  by (simp add: shown_events_def calls_def)

lemma calls_found_events:
  "calls (found_events s url cleaned jobs) = [LoadUrl url, ExtractJobs cleaned]"
  by (simp add: found_events_def calls_append calls_shown_events)
     (simp add: calls_def filter_empty_conv)

lemma calls_closing: "calls (closing s jobs r) = []"
  by (simp add: closing_def error_report_def calls_def split: option.splits)

lemma calls_error_report: "calls (error_report e) = []"
  by (simp add: error_report_def calls_def)

lemma calls_process_url:
  "in_order Start (calls (events (process_url w s url chain portfolio)))"
proof -
  have first: "\<And>sk. step Extracted (QueryLinks 1 sk) = Some (Matched 1)" by simp
  show ?thesis
  proof (cases rule: process_url_cases[where w=w and s=s and url=url and chain=chain
                                        and portfolio=portfolio])
    case (load_failed cleaned_data)
    then show ?thesis by (simp add: calls_simps)
  next
    case (extract_failed cleaned e)
    then show ?thesis
      by (simp add: calls_append calls_shown_events calls_error_report)
  next
    case (no_jobs cleaned)
    then show ?thesis
      by (simp add: calls_append calls_shown_events calls_simps)
  next
    case (with_jobs cleaned jobs evs r)
    from in_order_generate_emails[OF first, of w chain portfolio jobs] with_jobs(5)
    have "in_order Extracted (calls evs)" by simp
    with with_jobs(6) show ?thesis
      by (simp add: calls_append calls_found_events calls_closing)
  qed
qed

lemma tags_events:
  assumes "skill_tags sk = (tags, r)"
  shows "QueryLinks i q \<notin> set tags" "WriteMail i j ls \<notin> set tags" "StCode m \<notin> set tags"
    "ExtractJobs t \<notin> set tags"
  using assms by (auto simp: skill_tags_def split: if_splits sum.splits)

lemma email_for_job_events:
  assumes "email_for_job w c p idx job = (evs, r)"
  shows "QueryLinks i sk \<in> set evs \<Longrightarrow> i = idx \<and> sk = skills_of job"
    and "WriteMail i j ls \<in> set evs \<Longrightarrow>
           i = idx \<and> j = job \<and> query_links w p idx (skills_of job) = Inr ls"
    and "StCode m \<in> set evs \<Longrightarrow>
           \<exists>ls. query_links w p idx (skills_of job) = Inr ls \<and>
                write_mail w c idx job ls = Inr m"
proof -
  show "QueryLinks i sk \<in> set evs \<Longrightarrow> i = idx \<and> sk = skills_of job"
    using assms
    by (cases rule: email_for_job_cases[where job=job and w=w and c=c and p=p and idx=idx])
       (auto dest: tags_events)
  show "WriteMail i j ls \<in> set evs \<Longrightarrow>
           i = idx \<and> j = job \<and> query_links w p idx (skills_of job) = Inr ls"
    using assms
    by (cases rule: email_for_job_cases[where job=job and w=w and c=c and p=p and idx=idx])
       (auto dest: tags_events)
  show "StCode m \<in> set evs \<Longrightarrow>
           \<exists>ls. query_links w p idx (skills_of job) = Inr ls \<and>
                write_mail w c idx job ls = Inr m"
    using assms
    by (cases rule: email_for_job_cases[where job=job and w=w and c=c and p=p and idx=idx])
       (auto dest: tags_events)
qed

lemma generate_emails_Cons_cases:
  assumes "generate_emails w c p idx (job # jobs) = (evs, r)"
  obtains
    (stopped) e where
      "email_for_job w c p idx job = (evs, Some e)" "r = Some e"
  | (continued) evs1 evs2 where
      "email_for_job w c p idx job = (evs1, None)"
      "generate_emails w c p (Suc idx) jobs = (evs2, r)"
      "evs = evs1 @ evs2"
  using assms by (auto split: prod.splits option.splits)

lemma generate_emails_query_index:
  "generate_emails w c p idx jobs = (evs, r) \<Longrightarrow> QueryLinks i sk \<in> set evs \<Longrightarrow>
     idx \<le> i \<and> i < idx + length jobs"
proof (induction jobs arbitrary: idx evs r)
  case Nil
  then show ?case by simp
next
  case (Cons job jobs)
  from Cons.prems(1) show ?case
  proof (cases rule: generate_emails_Cons_cases)
    case (stopped e)
    with Cons.prems(2) email_for_job_events(1) show ?thesis by fastforce
  next
    case (continued evs1 evs2)
    with Cons.prems(2) have "QueryLinks i sk \<in> set evs1 \<or> QueryLinks i sk \<in> set evs2"
      by simp
    then show ?thesis
      using email_for_job_events(1)[OF continued(1)] Cons.IH[OF continued(2)] by fastforce
  qed
qed

lemma generate_emails_write_matched:
  "generate_emails w c p idx jobs = (evs, r) \<Longrightarrow> WriteMail i j ls \<in> set evs \<Longrightarrow>
     query_links w p i (skills_of j) = Inr ls"
proof (induction jobs arbitrary: idx evs r)
  case Nil
  then show ?case by simp
next
  case (Cons job jobs)
  from Cons.prems(1) show ?case
  proof (cases rule: generate_emails_Cons_cases)
    case (stopped e)
    with Cons.prems(2) email_for_job_events(2) show ?thesis by fastforce
  next
    case (continued evs1 evs2)
    with Cons.prems(2) have "WriteMail i j ls \<in> set evs1 \<or> WriteMail i j ls \<in> set evs2"
      by simp
    then show ?thesis
      using email_for_job_events(2)[OF continued(1)] Cons.IH[OF continued(2)] by fastforce
  qed
qed

lemma generate_emails_email_composed:
  "generate_emails w c p idx jobs = (evs, r) \<Longrightarrow> StCode m \<in> set evs \<Longrightarrow>
     \<exists>i j ls. query_links w p i (skills_of j) = Inr ls \<and> write_mail w c i j ls = Inr m"
proof (induction jobs arbitrary: idx evs r)
  case Nil
  then show ?case by simp
next
  case (Cons job jobs)
  from Cons.prems(1) show ?case
  proof (cases rule: generate_emails_Cons_cases)
    case (stopped e)
    from email_for_job_events(3)[OF stopped(1)] Cons.prems(2) show ?thesis by blast
  next
    case (continued evs1 evs2)
    with Cons.prems(2) have "StCode m \<in> set evs1 \<or> StCode m \<in> set evs2"
      by simp
    then show ?thesis
      using email_for_job_events(3)[OF continued(1)] Cons.IH[OF continued(2)] by blast
  qed
qed

lemma generate_emails_query_raised:
  "generate_emails w c p idx jobs = (evs, r) \<Longrightarrow> QueryLinks i sk \<in> set evs \<Longrightarrow>
     query_links w p i sk = Inl e \<Longrightarrow> r = Some e \<and> suffix [QueryLinks i sk] evs"
proof (induction jobs arbitrary: idx evs r)
  case Nil
  then show ?case by simp
next
  case (Cons job jobs)
  from Cons.prems(1) show ?case
  proof (cases rule: generate_emails_Cons_cases)
    case (stopped e')
    from email_for_job_events(1)[OF stopped(1) Cons.prems(2)]
    have at: "i = idx" "sk = skills_of job" by simp_all
    show ?thesis
    proof (cases rule: email_for_job_cases[where job=job and w=w and c=c and p=p and idx=idx])
      case (metric_fail e2)
      with stopped(1) Cons.prems(2) show ?thesis by auto
    next
      case (tags_fail tags e2)
      with stopped(1) Cons.prems(2) tags_events(1)[OF tags_fail(1)] show ?thesis by auto
    next
      case (query_fail tags e2)
      with stopped Cons.prems(3) at show ?thesis by (auto simp: suffix_def)
    next
      case (write_fail tags links e2)
      with Cons.prems(3) at show ?thesis by simp
    next
      case (composed tags links email)
      with Cons.prems(3) at show ?thesis by simp
    qed
  next
    case (continued evs1 evs2)
    have "QueryLinks i sk \<notin> set evs1"
    proof
      assume in1: "QueryLinks i sk \<in> set evs1"
      from email_for_job_events(1)[OF continued(1) in1]
      have at: "i = idx" "sk = skills_of job" by simp_all
      show False
      proof (cases rule: email_for_job_cases[where job=job and w=w and c=c and p=p and idx=idx])
        case (metric_fail e2)
        with continued(1) show ?thesis by simp
      next
        case (tags_fail tags e2)
        with continued(1) show ?thesis by simp
      next
        case (query_fail tags e2)
        with continued(1) show ?thesis by simp
      next
        case (write_fail tags links e2)
        with continued(1) show ?thesis by simp
      next
        case (composed tags links email)
        with Cons.prems(3) at show ?thesis by simp
      qed
    qed
    with Cons.prems(2) continued(3) have "QueryLinks i sk \<in> set evs2" by simp
    from Cons.IH[OF continued(2) this Cons.prems(3)] continued(3) show ?thesis
      by (auto simp: suffix_def)
  qed
qed

lemma generate_emails_write_raised:
  "generate_emails w c p idx jobs = (evs, r) \<Longrightarrow> WriteMail i j ls \<in> set evs \<Longrightarrow>
     write_mail w c i j ls = Inl e \<Longrightarrow> r = Some e \<and> suffix [WriteMail i j ls] evs"
proof (induction jobs arbitrary: idx evs r)
  case Nil
  then show ?case by simp
next
  case (Cons job jobs)
  from Cons.prems(1) show ?case
  proof (cases rule: generate_emails_Cons_cases)
    case (stopped e')
    from email_for_job_events(2)[OF stopped(1) Cons.prems(2)]
    have at: "i = idx" "j = job" "query_links w p idx (skills_of job) = Inr ls" by simp_all
    show ?thesis
    proof (cases rule: email_for_job_cases[where job=job and w=w and c=c and p=p and idx=idx])
      case (metric_fail e2)
      with stopped(1) Cons.prems(2) show ?thesis by auto
    next
      case (tags_fail tags e2)
      with stopped(1) Cons.prems(2) tags_events(2)[OF tags_fail(1)] show ?thesis by auto
    next
      case (query_fail tags e2)
      with at show ?thesis by simp
    next
      case (write_fail tags links e2)
      with stopped Cons.prems(3) at show ?thesis by (auto simp: suffix_def)
    next
      case (composed tags links email)
      with Cons.prems(3) at show ?thesis by simp
    qed
  next
    case (continued evs1 evs2)
    have "WriteMail i j ls \<notin> set evs1"
    proof
      assume in1: "WriteMail i j ls \<in> set evs1"
      from email_for_job_events(2)[OF continued(1) in1]
      have at: "i = idx" "j = job" "query_links w p idx (skills_of job) = Inr ls" by simp_all
      show False
      proof (cases rule: email_for_job_cases[where job=job and w=w and c=c and p=p and idx=idx])
        case (metric_fail e2)
        with continued(1) show ?thesis by simp
      next
        case (tags_fail tags e2)
        with continued(1) show ?thesis by simp
      next
        case (query_fail tags e2)
        with continued(1) show ?thesis by simp
      next
        case (write_fail tags links e2)
        with continued(1) show ?thesis by simp
      next
        case (composed tags links email)
        with Cons.prems(3) at show ?thesis by simp
      qed
    qed
    with Cons.prems(2) continued(3) have "WriteMail i j ls \<in> set evs2" by simp
    from Cons.IH[OF continued(2) this Cons.prems(3)] continued(3) show ?thesis
      by (auto simp: suffix_def)
  qed
qed

lemma generate_emails_append:
  "generate_emails w c p idx earlier = (evs, None) \<Longrightarrow>
     generate_emails w c p idx (earlier @ jobs) =
       (case generate_emails w c p (idx + length earlier) jobs of
          (evs', r) \<Rightarrow> (evs @ evs', r))"
proof (induction earlier arbitrary: idx evs)
  case Nil
  then show ?case by (simp split: prod.splits)
next
  case (Cons job earlier)
  from Cons.prems show ?case
  proof (cases rule: generate_emails_Cons_cases)
    case (stopped e)
    then show ?thesis by simp
  next
    case (continued evs1 evs2)
    from Cons.IH[OF continued(2)] continued(1,3) show ?thesis
      by (simp split: prod.splits)
  qed
qed

lemma tags_no_email: "skill_tags sk = (tags, r) \<Longrightarrow> filter is_email tags = []"
  by (auto simp: skill_tags_def filter_empty_conv split: if_splits sum.splits)

lemma email_for_job_one_email:
  assumes "email_for_job w c p idx job = (evs, None)"
  shows "length (filter is_email evs) = 1"
  using assms
  by (cases rule: email_for_job_cases[where job=job and w=w and c=c and p=p and idx=idx])
     (auto simp: tags_no_email)

lemma generate_emails_all_composed:
  "generate_emails w c p idx jobs = (evs, None) \<Longrightarrow>
     length (filter is_email evs) = length jobs"
proof (induction jobs arbitrary: idx evs)
  case Nil
  then show ?case by simp
next
  case (Cons job jobs)
  from Cons.prems show ?case
  proof (cases rule: generate_emails_Cons_cases)
    case (stopped e)
    then show ?thesis by simp
  next
    case (continued evs1 evs2)
    from Cons.IH[OF continued(2)] email_for_job_one_email[OF continued(1)] continued(3)
    show ?thesis by simp
  qed
qed

lemma generate_emails_unavailable:
  assumes "\<And>i sk. \<exists>e. query_links w p i sk = Inl e"
    and "generate_emails w c p idx jobs = (evs, r)"
    and "QueryLinks i sk \<in> set evs"
  shows "i = idx"
proof (cases jobs)
  case Nil
  with assms(2,3) show ?thesis by simp
next
  case (Cons job rest)
  from assms(2)[unfolded Cons] show ?thesis
  proof (cases rule: generate_emails_Cons_cases)
    case (stopped e)
    from email_for_job_events(1)[OF stopped(1) assms(3)] show ?thesis by simp
  next
    case (continued evs1 evs2)
    have "StCode m \<in> set evs1 \<Longrightarrow> False" for m
      using email_for_job_events(3)[OF continued(1)] assms(1)[of idx "skills_of job"] by fastforce
    moreover have "\<exists>m. StCode m \<in> set evs1"
      using continued(1)
      by (cases rule: email_for_job_cases[where job=job and w=w and c=c and p=p and idx=idx])
         auto
    ultimately show ?thesis by blast
  qed
qed

lemma generate_emails_no_extract:
  "generate_emails w c p idx jobs = (evs, r) \<Longrightarrow> ExtractJobs t \<notin> set evs"
proof (induction jobs arbitrary: idx evs r)
  case Nil
  then show ?case by simp
next
  case (Cons job jobs)
  have one: "ExtractJobs t \<notin> set (fst (email_for_job w c p idx job))"
    by (cases rule: email_for_job_cases[where job=job and w=w and c=c and p=p and idx=idx])
       (auto dest: tags_events)
  from Cons.prems show ?case
  proof (cases rule: generate_emails_Cons_cases)
    case (stopped e)
    with one show ?thesis by simp
  next
    case (continued evs1 evs2)
    with one Cons.IH[OF continued(2)] show ?thesis by simp
  qed
qed

lemma process_url_extract_call:
  assumes "ExtractJobs cleaned \<in> set (events (process_url w s url chain portfolio))"
  shows "load_and_process_url w url = Some cleaned"
proof (cases rule: process_url_cases[where w=w and s=s and url=url and chain=chain
                                      and portfolio=portfolio])
  case (load_failed cleaned_data)
  with assms show ?thesis by simp
next
  case (extract_failed cleaned' e)
  with assms have "ExtractJobs cleaned \<in> set (shown_events s url cleaned')"
    by (auto simp: error_report_def)
  from shown_events_mem[OF this] extract_failed(1) show ?thesis by simp
next
  case (no_jobs cleaned')
  with assms have "ExtractJobs cleaned \<in> set (shown_events s url cleaned')"
    by auto
  from shown_events_mem[OF this] no_jobs(1) show ?thesis by simp
next
  case (with_jobs cleaned' jobs evs r)
  with assms have "ExtractJobs cleaned \<in> set (found_events s url cleaned' jobs) \<or>
      ExtractJobs cleaned \<in> set evs \<or> ExtractJobs cleaned \<in> set (closing s jobs r)"
    by auto
  with generate_emails_no_extract[OF with_jobs(5), of cleaned]
    closing_mem[of "ExtractJobs cleaned" s jobs r]
  have "ExtractJobs cleaned \<in> set (found_events s url cleaned' jobs)" by auto
  from found_events_mem[OF this] with_jobs(1) show ?thesis by simp
qed

lemma process_url_in_loop:
  assumes "ev \<in> set (events (process_url w s url chain portfolio))"
    and "(\<exists>i sk. ev = QueryLinks i sk) \<or> (\<exists>i j ls. ev = WriteMail i j ls) \<or>
         (\<exists>m. ev = StCode m)"
  obtains cleaned jobs evs r where
    "load_and_process_url w url = Some cleaned"
    "extract_jobs w chain cleaned = Inr jobs"
    "generate_emails w chain portfolio 1 jobs = (evs, r)"
    "ev \<in> set evs"
    "events (process_url w s url chain portfolio) =
       found_events s url cleaned jobs @ evs @ closing s jobs r"
proof (cases rule: process_url_cases[where w=w and s=s and url=url and chain=chain
                                      and portfolio=portfolio])
  case (load_failed cleaned_data)
  with assms show ?thesis by auto
next
  case (extract_failed cleaned' e)
  with assms(1) have "ev \<in> set (shown_events s url cleaned') \<or> ev \<in> set (error_report e)"
    by auto
  with assms(2) shown_events_mem[of ev s url cleaned'] show ?thesis
    by (auto simp: error_report_def)
next
  case (no_jobs cleaned')
  with assms(1) have "ev \<in> set (shown_events s url cleaned') \<or> ev = StWarning NoJobsFound"
    by auto
  with assms(2) shown_events_mem[of ev s url cleaned'] show ?thesis by auto
next
  case (with_jobs cleaned' jobs evs r)
  with assms(1) have "ev \<in> set (found_events s url cleaned' jobs) \<or>
      ev \<in> set evs \<or> ev \<in> set (closing s jobs r)"
    by auto
  with assms(2) found_events_mem[of ev s url cleaned' jobs] closing_mem[of ev s jobs r]
  have "ev \<in> set evs" by auto
  with with_jobs that show ?thesis by simp
qed

section \<open>Runs of the example pages and what an exception leaves in the log\<close>

lemma process_url_returns: "outcome (process_url w s url chain portfolio) = Returned"
  by (simp add: process_url_def split: prod.splits option.splits)

lemma process_url_not_loaded:
  "load_and_process_url w url = None \<Longrightarrow>
     events (process_url w s url chain portfolio) = [LoadUrl url, StError LoadFailed]"
  by (simp add: process_url_def process_url_try_def)

lemma shown_events_suffix:
  "suffix (ExtractJobs cleaned # rest) (shown_events s url cleaned @ rest)"
  by (simp add: shown_events_def suffix_def)

lemma process_url_extract_raised:
  assumes "ExtractJobs cleaned \<in> set (events (process_url w s url chain portfolio))"
    and "extract_jobs w chain cleaned = Inl e"
  shows "suffix (ExtractJobs cleaned # error_report e)
           (events (process_url w s url chain portfolio))"
proof (cases rule: process_url_cases[where w=w and s=s and url=url and chain=chain
                                      and portfolio=portfolio])
  case (load_failed cleaned_data)
  with assms(1) show ?thesis by simp
next
  case (extract_failed cleaned' e')
  with process_url_extract_call[OF assms(1)] assms(2) have "cleaned' = cleaned" "e' = e"
    by simp_all
  with extract_failed(4) shown_events_suffix show ?thesis by simp
next
  case (no_jobs cleaned')
  with process_url_extract_call[OF assms(1)] assms(2) show ?thesis by simp
next
  case (with_jobs cleaned' jobs evs r)
  with process_url_extract_call[OF assms(1)] assms(2) show ?thesis by simp
qed

lemma suffix_in_log:
  assumes "suffix [ev] evs"
  shows "suffix (ev # rest) (pre @ evs @ rest)"
proof -
  from assms obtain zs where "evs = zs @ [ev]" by (auto simp: suffix_def)
  then have "pre @ evs @ rest = (pre @ zs) @ ev # rest" by simp
  then show ?thesis unfolding suffix_def by blast
qed

lemma process_url_query_raised:
  assumes "QueryLinks i sk \<in> set (events (process_url w s url chain portfolio))"
    and "query_links w portfolio i sk = Inl e"
  shows "suffix (QueryLinks i sk # error_report e)
           (events (process_url w s url chain portfolio))"
proof -
  from assms(1) obtain cleaned jobs evs r where
    loop: "generate_emails w chain portfolio 1 jobs = (evs, r)" "QueryLinks i sk \<in> set evs"
    and log: "events (process_url w s url chain portfolio) =
                found_events s url cleaned jobs @ evs @ closing s jobs r"
    by (rule process_url_in_loop) auto
  from generate_emails_query_raised[OF loop assms(2)]
  have "r = Some e" "suffix [QueryLinks i sk] evs" by simp_all
  with log suffix_in_log[of "QueryLinks i sk" evs "error_report e"] show ?thesis
    by (simp add: closing_def)
qed

lemma process_url_write_raised:
  assumes "WriteMail i j ls \<in> set (events (process_url w s url chain portfolio))"
    and "write_mail w chain i j ls = Inl e"
  shows "suffix (WriteMail i j ls # error_report e)
           (events (process_url w s url chain portfolio))"
proof -
  from assms(1) obtain cleaned jobs evs r where
    loop: "generate_emails w chain portfolio 1 jobs = (evs, r)" "WriteMail i j ls \<in> set evs"
    and log: "events (process_url w s url chain portfolio) =
                found_events s url cleaned jobs @ evs @ closing s jobs r"
    by (rule process_url_in_loop) auto
  from generate_emails_write_raised[OF loop assms(2)]
  have "r = Some e" "suffix [WriteMail i j ls] evs" by simp_all
  with log suffix_in_log[of "WriteMail i j ls" evs "error_report e"] show ?thesis
    by (simp add: closing_def)
qed

lemmas run_defs =
  process_url_def process_url_try_def load_and_process_url_def email_for_job_def
  skill_tags_def dict_get_def Let_def careers_page_def fresh_session_def
  backend_job_def analyst_job_def portfolio_link_def careers_url_def

lemma unreachable_site_run:
  "process_url unreachable_site fresh_session careers_url () () =
     \<lparr>outcome = Returned, events = [LoadUrl careers_url, StError LoadFailed],
      session_after = fresh_session\<rparr>"
  by (simp add: run_defs unreachable_site_def)

lemma broken_cleaner_run:
  "process_url broken_cleaner fresh_session careers_url () () =
     \<lparr>outcome = Returned, events = [LoadUrl careers_url, StError LoadFailed],
      session_after = fresh_session\<rparr>"
  by (simp add: run_defs broken_cleaner_def)

lemma garbled_answer_run:
  "process_url garbled_answer fresh_session careers_url () () =
     \<lparr>outcome = Returned,
      events = [LoadUrl careers_url, StInfo Extracting, ExtractJobs ''two jobs'',
                StError (ErrorOccurred ''no payload found''), StInfo TryDifferentUrl],
      session_after = fresh_session\<rparr>"
  by (simp add: run_defs garbled_answer_def)

lemma no_catalog_run:
  "process_url no_catalog fresh_session careers_url () () =
     \<lparr>outcome = Returned,
      events = [LoadUrl careers_url, StInfo Extracting, ExtractJobs ''two jobs'',
                StSuccess (FoundJobs 2),
                StHeading 1 (PStr ''Senior Backend Engineer''), StMetric (PStr ''5+ years''),
                StSkillsHeading, StSkillTag (PStr ''Python''), StSkillTag (PStr ''Go''),
                StSkillTag (PStr ''Kubernetes''),
                QueryLinks 1 (skills_of backend_job),
                StError (ErrorOccurred ''catalog not loaded''), StInfo TryDifferentUrl],
      session_after = fresh_session\<rparr>"
  by (simp add: run_defs no_catalog_def)

lemma first_mail_fails_run:
  "process_url first_mail_fails fresh_session careers_url () () =
     \<lparr>outcome = Returned,
      events = [LoadUrl careers_url, StInfo Extracting, ExtractJobs ''two jobs'',
                StSuccess (FoundJobs 2),
                StHeading 1 (PStr ''Senior Backend Engineer''), StMetric (PStr ''5+ years''),
                StSkillsHeading, StSkillTag (PStr ''Python''), StSkillTag (PStr ''Go''),
                StSkillTag (PStr ''Kubernetes''),
                QueryLinks 1 (skills_of backend_job),
                WriteMail 1 backend_job [portfolio_link],
                StError (ErrorOccurred ''empty email''), StInfo TryDifferentUrl],
      session_after = fresh_session\<rparr>"
  by (simp add: run_defs first_mail_fails_def composition_error_def)

lemma second_mail_fails_run:
  "process_url second_mail_fails fresh_session careers_url () () =
     \<lparr>outcome = Returned,
      events = [LoadUrl careers_url, StInfo Extracting, ExtractJobs ''three jobs'',
                StSuccess (FoundJobs 3),
                StHeading 1 (PStr ''Data Analyst''), StMetric (PStr ''N/A''),
                StSkillsHeading, StSkillTag (PStr ''SQL''),
                QueryLinks 1 (skills_of analyst_job),
                WriteMail 1 analyst_job [portfolio_link],
                StCode ''Dear hiring manager'', StDownload 1 ''Dear hiring manager'',
                StHeading 2 (PStr ''Senior Backend Engineer''), StMetric (PStr ''5+ years''),
                StSkillsHeading, StSkillTag (PStr ''Python''), StSkillTag (PStr ''Go''),
                StSkillTag (PStr ''Kubernetes''),
                QueryLinks 2 (skills_of backend_job),
                WriteMail 2 backend_job [portfolio_link],
                StError (ErrorOccurred ''empty email''), StInfo TryDifferentUrl],
      session_after = fresh_session\<rparr>"
  by (simp add: run_defs second_mail_fails_def composition_error_def)

lemma found_events_no_email: "filter is_email (found_events s url cleaned jobs) = []"
  by (auto simp: found_events_def shown_events_def filter_empty_conv)

section \<open>Ranking the catalog\<close>

lemma set_place: "set (place score x ys) = insert x (set ys)"
  by (induction ys) auto

lemma descending_place: "descending score ys \<Longrightarrow> descending score (place score x ys)"
proof (induction ys)
  case Nil
  then show ?case by simp
next
  case (Cons y ys)
  show ?case
  proof (cases "score y \<le> score x")
    case True
    with Cons.prems show ?thesis by auto
  next
    case False
    with Cons show ?thesis by (auto simp: set_place)
  qed
qed

lemma descending_rank: "descending score (rank score xs)"
  by (induction xs) (simp_all add: descending_place)

lemma set_rank: "set (rank score xs) = set xs"
  by (induction xs) (simp_all add: set_place)

lemma length_place: "length (place score x ys) = Suc (length ys)"
  by (induction ys) simp_all

lemma length_rank: "length (rank score xs) = length xs"
  by (induction xs) (simp_all add: length_place)

lemma filter_place:
  "filter (\<lambda>y. score y = k) (place score x ys) =
     (if score x = k then x # filter (\<lambda>y. score y = k) ys
      else filter (\<lambda>y. score y = k) ys)"
  by (induction ys) auto

lemma rank_stable: "filter (\<lambda>y. score y = k) (rank score xs) = filter (\<lambda>y. score y = k) xs"
  by (induction xs) (simp_all add: filter_place)

lemma prefix_filter_take: "prefix (filter P (take n xs)) (filter P xs)"
proof -
  have "filter P xs = filter P (take n xs) @ filter P (drop n xs)"
    by (metis append_take_drop_id filter_append)
  then show ?thesis by (simp add: prefix_def)
qed

lemma descending_take_drop:
  assumes "descending score xs" and "a \<in> set (take n xs)" and "b \<in> set (drop n xs)"
  shows "score b \<le> score a"
proof -
  from assms(1) have "descending score (take n xs @ drop n xs)" by simp
  with assms(2,3) show ?thesis unfolding sorted_wrt_append by blast
qed

lemma distinct_first_occurrences: "distinct (first_occurrences xs)"
  by (simp add: first_occurrences_def)

lemma set_first_occurrences: "set (first_occurrences xs) = set xs"
  by (simp add: first_occurrences_def)

lemma subseq_remdups_self: "subseq (remdups xs) xs"
  by (induction xs) auto

lemma subseq_rev_rev: "subseq xs ys \<Longrightarrow> subseq (rev xs) (rev ys)"
proof (induction rule: list_emb.induct)
  case (list_emb_Nil ys)
  then show ?case by simp
next
  case (list_emb_Cons xs ys y)
  then show ?case by (simp add: subseq_rev_drop_many)
next
  case (list_emb_Cons2 x y xs ys)
  then show ?case by (simp add: list_emb_append_mono)
qed

lemma subseq_first_occurrences: "subseq (first_occurrences xs) xs"
  using subseq_rev_rev[OF subseq_remdups_self[of "rev xs"]]
  by (simp add: first_occurrences_def)

lemma sample_loaded: "load text_length sample_catalog = Some sample_index"
  by (simp add: load_def text_length_def sample_catalog_def sample_index_def)

lemma sample_matched:
  "matched text_length sample_index [''Django''] 3 =
     [(\<lparr>techstack = [''Python'', ''Go''], link = ''https://example.com/python''\<rparr>, 8),
      (\<lparr>techstack = [''Kotlin'', ''C''], link = ''https://example.com/python''\<rparr>, 7),
      (\<lparr>techstack = [''Terraform''], link = ''https://example.com/infra''\<rparr>, 9)]"
  by (simp add: matched_def query_score_def text_length_def sample_index_def)

section \<open>Collapsing and trimming\<close>

lemma space_is_whitespace: "is_whitespace CHR '' ''"
  by (simp add: is_whitespace_def)

lemma space_not_control: "\<not> is_control CHR '' ''"
  by (simp add: is_control_def)

lemma text_of_collapse:
  "filter (\<lambda>c. \<not> is_whitespace c) (collapse g cs) = filter (\<lambda>c. \<not> is_whitespace c) cs"
  by (induction cs arbitrary: g) (simp_all add: space_is_whitespace)

lemma set_collapse:
  "c \<in> set (collapse g cs) \<Longrightarrow> c = CHR '' '' \<or> (c \<in> set cs \<and> \<not> is_whitespace c)"
  by (induction cs arbitrary: g) (auto split: if_splits)

lemma collapse_single_spaced:
  "single_spaced (collapse g cs) \<and>
   (g \<longrightarrow> collapse g cs = [] \<or> hd (collapse g cs) \<noteq> CHR '' '')"
proof (induction cs arbitrary: g)
  case Nil
  show ?case by simp
next
  case (Cons c cs)
  show ?case
  proof (cases "is_whitespace c")
    case True
    with Cons[of True] show ?thesis by (auto simp: successively_Cons double_space_def)
  next
    case False
    then have "c \<noteq> CHR '' ''" using space_is_whitespace by auto
    with False Cons[of False] show ?thesis by (auto simp: successively_Cons double_space_def)
  qed
qed

lemma single_spaced_dropWhile: "single_spaced s \<Longrightarrow> single_spaced (dropWhile P s)"
proof -
  assume "single_spaced s"
  then have "single_spaced (takeWhile P s @ dropWhile P s)" by simp
  then show ?thesis unfolding successively_append_iff by blast
qed

lemma single_spaced_rev: "single_spaced (rev s) = single_spaced s"
proof -
  have "(\<lambda>x y. \<not> double_space y x) = (\<lambda>a b. \<not> double_space a b)"
    by (auto simp: double_space_def)
  then show ?thesis
    unfolding successively_rev by (rule arg_cong[where f="\<lambda>P. successively P s"])
qed

lemma single_spaced_trim:
  assumes "single_spaced s"
  shows "single_spaced (trim s)"
proof -
  let ?P = "\<lambda>c. c = CHR '' ''"
  from assms have "single_spaced (dropWhile ?P s)"
    by (rule single_spaced_dropWhile)
  then have "single_spaced (rev (dropWhile ?P s))"
    by (simp only: single_spaced_rev)
  then have "single_spaced (dropWhile ?P (rev (dropWhile ?P s)))"
    by (rule single_spaced_dropWhile)
  then show ?thesis
    by (simp only: trim_def single_spaced_rev)
qed

lemma set_trim: "c \<in> set (trim s) \<Longrightarrow> c \<in> set s"
  by (auto simp: trim_def dest!: set_dropWhileD)

lemma filter_dropWhile_disjoint:
  "(\<And>x. P x \<Longrightarrow> \<not> R x) \<Longrightarrow> filter R (dropWhile P xs) = filter R xs"
  by (induction xs) auto

lemma text_of_trim:
  "filter (\<lambda>c. \<not> is_whitespace c) (trim s) = filter (\<lambda>c. \<not> is_whitespace c) s"
proof -
  have sp: "\<And>x. x = CHR '' '' \<Longrightarrow> \<not> \<not> is_whitespace x"
    by (simp add: space_is_whitespace)
  show ?thesis
    unfolding trim_def rev_filter[symmetric]
    by (simp add: filter_dropWhile_disjoint[OF sp] rev_filter)
qed

lemma last_dropWhile: "dropWhile P xs \<noteq> [] \<Longrightarrow> last (dropWhile P xs) = last xs"
  by (induction xs) (auto split: if_splits)

lemma trim_ends:
  assumes "trim s \<noteq> []"
  shows "hd (trim s) \<noteq> CHR '' ''" and "last (trim s) \<noteq> CHR '' ''"
proof -
  define front where "front = dropWhile (\<lambda>c. c = CHR '' '') s"
  define rear where "rear = dropWhile (\<lambda>c. c = CHR '' '') (rev front)"
  have shape: "trim s = rev rear"
    by (simp only: trim_def front_def rear_def)
  with assms have rear_ne: "rear \<noteq> []"
    by (simp only: rev_is_Nil_conv not_False_eq_True)
  have front_ne: "front \<noteq> []"
  proof
    assume "front = []"
    then have "rear = []" by (simp only: rear_def rev.simps dropWhile.simps)
    with rear_ne show False by (rule notE)
  qed
  have a: "hd rear \<noteq> CHR '' ''"
    unfolding rear_def using rear_ne[unfolded rear_def] by (rule hd_dropWhile)
  have b: "hd front \<noteq> CHR '' ''"
    unfolding front_def using front_ne[unfolded front_def] by (rule hd_dropWhile)
  have "last (trim s) = hd rear"
    by (simp only: shape last_rev)
  with a show "last (trim s) \<noteq> CHR '' ''"
    by (simp only: not_False_eq_True)
  have "hd (trim s) = last rear"
    by (simp only: shape hd_rev)
  also have "\<dots> = last (rev front)"
    unfolding rear_def using rear_ne[unfolded rear_def] by (rule last_dropWhile)
  also have "\<dots> = hd front"
    by (simp only: last_rev)
  finally have "hd (trim s) = hd front" .
  with b show "hd (trim s) \<noteq> CHR '' ''"
    by (simp only: not_False_eq_True)
qed

lemma trim_spaces:
  assumes "\<And>c. c \<in> set s \<Longrightarrow> c = CHR '' ''"
  shows "trim s = []"
proof -
  from assms show ?thesis
    by (auto simp: trim_def dest: set_dropWhileD)
qed

lemma normalize_text_keeps:
  assumes "c \<in> set (normalize_text raw)"
  shows "c = CHR '' '' \<or> (\<not> is_whitespace c \<and> \<not> is_control c)"
proof -
  from assms have "c \<in> set (collapse False (strip_control raw))"
    unfolding normalize_text_def by (rule set_trim)
  from set_collapse[OF this] show ?thesis
    by (auto simp: strip_control_def)
qed

lemma normalize_blank_page: "normalize_text blank_page = []"
  by (simp add: blank_page_def normalize_text_def strip_control_def trim_def is_whitespace_def
        is_control_def)

lemma normalize_noisy_page: "normalize_text noisy_page = ''Senior Engineer''"
  by (simp add: noisy_page_def normalize_text_def strip_control_def trim_def is_whitespace_def
        is_control_def)


section \<open>A page with no job posting\<close>

text \<open>
  C1. When the page text was loaded and the extractor returns no posting for it, the
  run returns normally: it renders the notice that no posting was found, it renders no
  error, it matches and composes nothing, and the session is unchanged.
\<close>

theorem no_postings_is_not_an_error:
  assumes "load_and_process_url w url = Some text" and "text \<noteq> []"
    and "extract_jobs w chain text = Inr []"
  shows "process_url w s url chain portfolio =
           \<lparr>outcome = Returned,
            events = LoadUrl url # (if show_raw_data s then [StTextArea text] else []) @
                       [StInfo Extracting, ExtractJobs text, StWarning NoJobsFound],
            session_after = s\<rparr>"
  using assms by (simp add: process_url_def process_url_try_def)

theorem no_postings_is_not_an_error_witness:
  "load_and_process_url about_page careers_url = Some ''About us'' \<and>
   ''About us'' \<noteq> [] \<and>
   extract_jobs about_page () ''About us'' = Inr [] \<and>
   process_url about_page fresh_session careers_url () () =
     \<lparr>outcome = Returned,
      events = [LoadUrl careers_url, StInfo Extracting, ExtractJobs ''About us'',
                StWarning NoJobsFound],
      session_after = fresh_session\<rparr>"
  using no_postings_is_not_an_error
          [of about_page careers_url "''About us''" "()" fresh_session "()"]
  by (simp add: about_page_def load_and_process_url_def fresh_session_def)

section \<open>The order of the stages\<close>

text \<open>
  C9. In every run the calls that leave \<^verbatim>\<open>process_url\<close> take the transitions
  Start, Normalized, Extracted, then Matched and Composed for posting 1, 2, ... in this
  order, none skipped (the run may stop after any of them). The text handed to the
  extractor is what \<^verbatim>\<open>clean_text\<close> returned for the loaded page, and a posting is composed
  only with the links that \<^verbatim>\<open>query_links\<close> returned for that posting.
\<close>

theorem stages_run_in_order:
  "in_order Start (calls (events (process_url w s url chain portfolio))) \<and>
   (\<forall>cleaned. ExtractJobs cleaned \<in> set (events (process_url w s url chain portfolio)) \<longrightarrow>
      (\<exists>raw rest. loader w url = Inr (raw # rest) \<and> clean_text w raw = Inr cleaned)) \<and>
   (\<forall>i j ls. WriteMail i j ls \<in> set (events (process_url w s url chain portfolio)) \<longrightarrow>
      query_links w portfolio i (skills_of j) = Inr ls)"
proof (intro conjI allI impI)
  show "in_order Start (calls (events (process_url w s url chain portfolio)))"
    by (rule calls_process_url)
next
  fix cleaned
  assume "ExtractJobs cleaned \<in> set (events (process_url w s url chain portfolio))"
  from process_url_extract_call[OF this]
  show "\<exists>raw rest. loader w url = Inr (raw # rest) \<and> clean_text w raw = Inr cleaned"
    by (auto simp: load_and_process_url_def split: sum.splits list.splits)
next
  fix i j ls
  assume "WriteMail i j ls \<in> set (events (process_url w s url chain portfolio))"
  then obtain cleaned jobs evs r where
    "generate_emails w chain portfolio 1 jobs = (evs, r)" "WriteMail i j ls \<in> set evs"
    by (rule process_url_in_loop) auto
  from generate_emails_write_matched[OF this]
  show "query_links w portfolio i (skills_of j) = Inr ls" .
qed

theorem stages_run_in_order_witness:
  "in_order Start (calls (events (process_url careers_page fresh_session careers_url () ()))) \<and>
   calls (events (process_url careers_page fresh_session careers_url () ())) =
     [LoadUrl careers_url, ExtractJobs ''two jobs'',
      QueryLinks 1 (skills_of backend_job), WriteMail 1 backend_job [portfolio_link],
      QueryLinks 2 (skills_of analyst_job), WriteMail 2 analyst_job [portfolio_link]] \<and>
   loader careers_page careers_url = Inr [''raw page''] \<and>
   clean_text careers_page ''raw page'' = Inr ''two jobs'' \<and>
   query_links careers_page () 2 (skills_of analyst_job) = Inr [portfolio_link]"
  using stages_run_in_order[of careers_page fresh_session careers_url "()" "()"]
  by (simp add: careers_page_def fresh_session_def process_url_def process_url_try_def
        load_and_process_url_def email_for_job_def skill_tags_def dict_get_def
        backend_job_def analyst_job_def calls_def portfolio_link_def Let_def)

section \<open>Exceptions never leave \<^verbatim>\<open>process_url\<close>\<close>

text \<open>
  C10. \<^verbatim>\<open>process_url\<close> returns normally for every input. An exception of the loader or
  of \<^verbatim>\<open>clean_text\<close> is caught in \<^verbatim>\<open>load_and_process_url\<close> and the run renders that the
  page could not be loaded; an exception of \<^verbatim>\<open>extract_jobs\<close>, \<^verbatim>\<open>query_links\<close> or
  \<^verbatim>\<open>write_mail\<close> is caught by the handler of \<^verbatim>\<open>process_url\<close>: the failing call is the last
  call of the run and is followed by the rendered error report with the exception's text.
\<close>

theorem process_url_reports_every_exception:
  "outcome (process_url w s url chain portfolio) = Returned \<and>
   (\<forall>e. loader w url = Inl e \<longrightarrow>
      events (process_url w s url chain portfolio) = [LoadUrl url, StError LoadFailed]) \<and>
   (\<forall>raw rest e. loader w url = Inr (raw # rest) \<and> clean_text w raw = Inl e \<longrightarrow>
      events (process_url w s url chain portfolio) = [LoadUrl url, StError LoadFailed]) \<and>
   (\<forall>cleaned e.
      ExtractJobs cleaned \<in> set (events (process_url w s url chain portfolio)) \<and>
      extract_jobs w chain cleaned = Inl e \<longrightarrow>
      suffix (ExtractJobs cleaned # error_report e)
        (events (process_url w s url chain portfolio))) \<and>
   (\<forall>i sk e.
      QueryLinks i sk \<in> set (events (process_url w s url chain portfolio)) \<and>
      query_links w portfolio i sk = Inl e \<longrightarrow>
      suffix (QueryLinks i sk # error_report e)
        (events (process_url w s url chain portfolio))) \<and>
   (\<forall>i j ls e.
      WriteMail i j ls \<in> set (events (process_url w s url chain portfolio)) \<and>
      write_mail w chain i j ls = Inl e \<longrightarrow>
      suffix (WriteMail i j ls # error_report e)
        (events (process_url w s url chain portfolio)))"
proof (intro conjI allI impI)
  show "outcome (process_url w s url chain portfolio) = Returned"
    by (rule process_url_returns)
next
  fix e
  assume "loader w url = Inl e"
  then have "load_and_process_url w url = None"
    by (simp add: load_and_process_url_def)
  then show "events (process_url w s url chain portfolio) = [LoadUrl url, StError LoadFailed]"
    by (rule process_url_not_loaded)
next
  fix raw rest e
  assume "loader w url = Inr (raw # rest) \<and> clean_text w raw = Inl e"
  then have "load_and_process_url w url = None"
    by (simp add: load_and_process_url_def)
  then show "events (process_url w s url chain portfolio) = [LoadUrl url, StError LoadFailed]"
    by (rule process_url_not_loaded)
next
  fix cleaned e
  assume "ExtractJobs cleaned \<in> set (events (process_url w s url chain portfolio)) \<and>
          extract_jobs w chain cleaned = Inl e"
  then show "suffix (ExtractJobs cleaned # error_report e)
               (events (process_url w s url chain portfolio))"
    by (intro process_url_extract_raised) simp_all
next
  fix i sk e
  assume "QueryLinks i sk \<in> set (events (process_url w s url chain portfolio)) \<and>
          query_links w portfolio i sk = Inl e"
  then show "suffix (QueryLinks i sk # error_report e)
               (events (process_url w s url chain portfolio))"
    by (intro process_url_query_raised) simp_all
next
  fix i j ls e
  assume "WriteMail i j ls \<in> set (events (process_url w s url chain portfolio)) \<and>
          write_mail w chain i j ls = Inl e"
  then show "suffix (WriteMail i j ls # error_report e)
               (events (process_url w s url chain portfolio))"
    by (intro process_url_write_raised) simp_all
qed

theorem process_url_reports_every_exception_witness:
  "outcome (process_url unreachable_site fresh_session careers_url () ()) = Returned \<and>
   loader unreachable_site careers_url = Inl (Exception ''ConnectionError'' ''timed out'') \<and>
   events (process_url unreachable_site fresh_session careers_url () ()) =
     [LoadUrl careers_url, StError LoadFailed] \<and>
   loader broken_cleaner careers_url = Inr [''raw page''] \<and>
   clean_text broken_cleaner ''raw page'' = Inl (Exception ''TypeError'' ''expected string'') \<and>
   events (process_url broken_cleaner fresh_session careers_url () ()) =
     [LoadUrl careers_url, StError LoadFailed] \<and>
   extract_jobs garbled_answer () ''two jobs'' =
     Inl (Exception ''ExtractionError'' ''no payload found'') \<and>
   suffix [ExtractJobs ''two jobs'', StError (ErrorOccurred ''no payload found''),
           StInfo TryDifferentUrl]
     (events (process_url garbled_answer fresh_session careers_url () ())) \<and>
   query_links no_catalog () 1 (skills_of backend_job) =
     Inl (Exception ''CatalogUnavailableError'' ''catalog not loaded'') \<and>
   suffix [QueryLinks 1 (skills_of backend_job),
           StError (ErrorOccurred ''catalog not loaded''), StInfo TryDifferentUrl]
     (events (process_url no_catalog fresh_session careers_url () ())) \<and>
   write_mail first_mail_fails () 1 backend_job [portfolio_link] = Inl composition_error \<and>
   suffix [WriteMail 1 backend_job [portfolio_link],
           StError (ErrorOccurred ''empty email''), StInfo TryDifferentUrl]
     (events (process_url first_mail_fails fresh_session careers_url () ()))"
proof -
  note site = process_url_reports_every_exception
                [of unreachable_site fresh_session careers_url "()" "()"]
  note cleaner = process_url_reports_every_exception
                   [of broken_cleaner fresh_session careers_url "()" "()"]
  note answer = process_url_reports_every_exception
                  [of garbled_answer fresh_session careers_url "()" "()"]
  note catalog = process_url_reports_every_exception
                   [of no_catalog fresh_session careers_url "()" "()"]
  note mail = process_url_reports_every_exception
                [of first_mail_fails fresh_session careers_url "()" "()"]
  have l1: "loader unreachable_site careers_url =
              Inl (Exception ''ConnectionError'' ''timed out'')"
    by (simp add: unreachable_site_def)
  have l2: "loader broken_cleaner careers_url = Inr [''raw page'']"
           "clean_text broken_cleaner ''raw page'' =
              Inl (Exception ''TypeError'' ''expected string'')"
    by (simp_all add: broken_cleaner_def careers_page_def)
  have l3: "ExtractJobs ''two jobs''
              \<in> set (events (process_url garbled_answer fresh_session careers_url () ()))"
           "extract_jobs garbled_answer () ''two jobs'' =
              Inl (Exception ''ExtractionError'' ''no payload found'')"
    by (simp_all add: garbled_answer_run) (simp add: garbled_answer_def)
  have l4: "QueryLinks 1 (skills_of backend_job)
              \<in> set (events (process_url no_catalog fresh_session careers_url () ()))"
           "query_links no_catalog () 1 (skills_of backend_job) =
              Inl (Exception ''CatalogUnavailableError'' ''catalog not loaded'')"
    by (simp_all add: no_catalog_run) (simp add: no_catalog_def)
  have l5: "WriteMail 1 backend_job [portfolio_link]
              \<in> set (events (process_url first_mail_fails fresh_session careers_url () ()))"
           "write_mail first_mail_fails () 1 backend_job [portfolio_link] =
              Inl composition_error"
    by (simp_all add: first_mail_fails_run) (simp add: first_mail_fails_def)
  from site l1 have c1: "outcome (process_url unreachable_site fresh_session careers_url () ())
                           = Returned"
    "events (process_url unreachable_site fresh_session careers_url () ()) =
       [LoadUrl careers_url, StError LoadFailed]"
    by blast+
  from cleaner l2 have c2:
    "events (process_url broken_cleaner fresh_session careers_url () ()) =
       [LoadUrl careers_url, StError LoadFailed]"
    by blast
  from answer l3 have c3:
    "suffix (ExtractJobs ''two jobs'' #
               error_report (Exception ''ExtractionError'' ''no payload found''))
       (events (process_url garbled_answer fresh_session careers_url () ()))"
    by blast
  from catalog l4 have c4:
    "suffix (QueryLinks 1 (skills_of backend_job) #
               error_report (Exception ''CatalogUnavailableError'' ''catalog not loaded''))
       (events (process_url no_catalog fresh_session careers_url () ()))"
    by blast
  from mail l5 have c5:
    "suffix (WriteMail 1 backend_job [portfolio_link] # error_report composition_error)
       (events (process_url first_mail_fails fresh_session careers_url () ()))"
    by blast
  from c1 c2 c3 c4 c5 l1 l2 l3 l4 l5 show ?thesis
    by (simp add: error_report_def composition_error_def)
qed

section \<open>A catalog that is not available\<close>

text \<open>
  C8. For a catalog that is empty or was never loaded, every call of \<open>queryLinks\<close> fails
  with \<open>CatalogUnavailableError\<close>, whatever the skills and \<open>topK\<close>. When the portfolio of
  the application answers \<^verbatim>\<open>query_links\<close> as that catalog does, every call raises this
  error, and a run of \<^verbatim>\<open>process_url\<close> composes no email and renders none: the only match
  attempted is the one for posting 1, and it is followed by the error report of the whole
  run, not by the next posting. When loading the portfolio fails at start, \<^verbatim>\<open>main\<close> raises
  the exception from the constructor and \<^verbatim>\<open>run\<close> renders that the application failed to
  initialize, so that no pipeline run takes place.
\<close>

theorem unavailable_catalog_aborts_the_run:
  assumes "cat = None \<or> cat = Some []"
    and "query_links w = portfolio_query_links emb"
  shows "(\<forall>skills topK. queryLinks emb cat skills topK = Inl CatalogUnavailableError) \<and>
         (\<forall>i sk. query_links w cat i sk = Inl (raise_error CatalogUnavailableError)) \<and>
         (\<forall>i j ls. WriteMail i j ls \<notin> set (events (process_url w s url chain cat))) \<and>
         (\<forall>m. StCode m \<notin> set (events (process_url w s url chain cat))) \<and>
         (\<forall>i sk. QueryLinks i sk \<in> set (events (process_url w s url chain cat)) \<longrightarrow>
            i = 1 \<and>
            suffix (QueryLinks 1 sk # error_report (raise_error CatalogUnavailableError))
              (events (process_url w s url chain cat))) \<and>
         (\<forall>c0 p0 e. new_chain w = Inr c0 \<and> new_portfolio w = Inr p0 \<and>
              load_portfolio w p0 = Inl e \<longrightarrow>
            main w inp s = \<lparr>outcome = Raised e, events = [], session_after = s\<rparr> \<and>
            run w inp s =
              \<lparr>outcome = Returned, events = [StError InitFailed], session_after = s\<rparr>)"
proof -
  let ?evs = "events (process_url w s url chain cat)"
  let ?err = "raise_error CatalogUnavailableError"
  have model: "queryLinks emb cat skills topK = Inl CatalogUnavailableError" for skills topK
    using assms(1) by (auto simp: queryLinks_def)
  have raised: "query_links w cat i sk = Inl ?err" for i sk
    by (simp add: assms(2) portfolio_query_links_def model)
  then have every: "\<And>i sk. \<exists>e. query_links w cat i sk = Inl e"
    by blast
  have no_write: "WriteMail i j ls \<notin> set ?evs" for i j ls
  proof
    assume "WriteMail i j ls \<in> set ?evs"
    then obtain cleaned jobs evs r where
      "generate_emails w chain cat 1 jobs = (evs, r)" "WriteMail i j ls \<in> set evs"
      by (rule process_url_in_loop) auto
    from generate_emails_write_matched[OF this] raised[of i "skills_of j"]
    show False by simp
  qed
  have no_email: "StCode m \<notin> set ?evs" for m
  proof
    assume "StCode m \<in> set ?evs"
    then obtain cleaned jobs evs r where
      "generate_emails w chain cat 1 jobs = (evs, r)" "StCode m \<in> set evs"
      by (rule process_url_in_loop) auto
    from generate_emails_email_composed[OF this] obtain i j ls where
      "query_links w cat i (skills_of j) = Inr ls"
      by blast
    with raised[of i "skills_of j"] show False by simp
  qed
  have first: "i = 1 \<and> suffix (QueryLinks 1 sk # error_report ?err) ?evs"
    if q: "QueryLinks i sk \<in> set ?evs" for i sk
  proof -
    from q obtain cleaned jobs evs r where
      loop: "generate_emails w chain cat 1 jobs = (evs, r)" "QueryLinks i sk \<in> set evs"
      by (rule process_url_in_loop) auto
    from generate_emails_unavailable[OF every loop] have one: "i = 1" by simp
    from process_url_query_raised[OF q[unfolded one] raised[of 1 sk]] one
    show ?thesis by simp
  qed
  have start: "main w inp s = \<lparr>outcome = Raised e, events = [], session_after = s\<rparr> \<and>
      run w inp s = \<lparr>outcome = Returned, events = [StError InitFailed], session_after = s\<rparr>"
    if "new_chain w = Inr c0 \<and> new_portfolio w = Inr p0 \<and> load_portfolio w p0 = Inl e"
    for c0 p0 e
  proof -
    from that have "initialize_components w = Inl e"
      by (simp add: initialize_components_def)
    then show ?thesis by (simp add: main_def run_def)
  qed
  show ?thesis
  proof (intro conjI allI impI)
    fix skills topK
    show "queryLinks emb cat skills topK = Inl CatalogUnavailableError" by (rule model)
  next
    fix i sk
    show "query_links w cat i sk = Inl ?err" by (rule raised)
  next
    fix i j ls
    show "WriteMail i j ls \<notin> set ?evs" by (rule no_write)
  next
    fix m
    show "StCode m \<notin> set ?evs" by (rule no_email)
  next
    fix i sk
    assume "QueryLinks i sk \<in> set ?evs"
    from first[OF this] show "i = 1" by simp
  next
    fix i sk
    assume "QueryLinks i sk \<in> set ?evs"
    from first[OF this] show "suffix (QueryLinks 1 sk # error_report ?err) ?evs" by simp
  next
    fix c0 p0 e
    assume "new_chain w = Inr c0 \<and> new_portfolio w = Inr p0 \<and> load_portfolio w p0 = Inl e"
    from start[OF this]
    show "main w inp s = \<lparr>outcome = Raised e, events = [], session_after = s\<rparr>" by simp
  next
    fix c0 p0 e
    assume "new_chain w = Inr c0 \<and> new_portfolio w = Inr p0 \<and> load_portfolio w p0 = Inl e"
    from start[OF this]
    show "run w inp s =
            \<lparr>outcome = Returned, events = [StError InitFailed], session_after = s\<rparr>"
      by simp
  qed
qed

theorem unavailable_catalog_aborts_the_run_witness:
  "((None :: nat catalog) = None \<or> (None :: nat catalog) = Some []) \<and>
   query_links catalog_not_loaded = portfolio_query_links text_length \<and>
   queryLinks text_length None [''Python'', ''Go''] 2 = Inl CatalogUnavailableError \<and>
   queryLinks text_length None [] 2 = Inl CatalogUnavailableError \<and>
   query_links catalog_not_loaded None 1 (skills_of backend_job) =
     Inl (Exception ''CatalogUnavailableError'' ''CatalogUnavailableError'') \<and>
   events (process_url catalog_not_loaded fresh_session careers_url () None) =
     [LoadUrl careers_url, StInfo Extracting, ExtractJobs ''two jobs'',
      StSuccess (FoundJobs 2),
      StHeading 1 (PStr ''Senior Backend Engineer''), StMetric (PStr ''5+ years''),
      StSkillsHeading, StSkillTag (PStr ''Python''), StSkillTag (PStr ''Go''),
      StSkillTag (PStr ''Kubernetes''),
      QueryLinks 1 (skills_of backend_job),
      StError (ErrorOccurred ''CatalogUnavailableError''), StInfo TryDifferentUrl] \<and>
   (\<forall>m. StCode m
      \<notin> set (events (process_url catalog_not_loaded fresh_session careers_url () None))) \<and>
   new_chain catalog_not_loaded = Inr () \<and> new_portfolio catalog_not_loaded = Inr None \<and>
   load_portfolio catalog_not_loaded None =
     Inl (Exception ''CatalogUnavailableError'' ''cannot read the catalog'') \<and>
   main catalog_not_loaded visitor_click fresh_session =
     \<lparr>outcome = Raised (Exception ''CatalogUnavailableError'' ''cannot read the catalog''),
      events = [], session_after = fresh_session\<rparr> \<and>
   run catalog_not_loaded visitor_click fresh_session =
     \<lparr>outcome = Returned, events = [StError InitFailed], session_after = fresh_session\<rparr>"
proof -
  have h1: "(None :: nat catalog) = None \<or> (None :: nat catalog) = Some []"
    by simp
  have h2: "query_links catalog_not_loaded = portfolio_query_links text_length"
    by (simp add: catalog_not_loaded_def)
  note inst = unavailable_catalog_aborts_the_run
                [OF h1 h2, where s=fresh_session and url=careers_url and chain="()"
                             and inp=visitor_click]
  have h3: "new_chain catalog_not_loaded = Inr () \<and>
            new_portfolio catalog_not_loaded = Inr None \<and>
            load_portfolio catalog_not_loaded None =
              Inl (Exception ''CatalogUnavailableError'' ''cannot read the catalog'')"
    by (simp add: catalog_not_loaded_def)
  from inst have c1:
    "queryLinks text_length None [''Python'', ''Go''] 2 = Inl CatalogUnavailableError"
    "queryLinks text_length None [] 2 = Inl CatalogUnavailableError"
    by blast+
  from inst have c2:
    "query_links catalog_not_loaded None 1 (skills_of backend_job) =
       Inl (raise_error CatalogUnavailableError)"
    by blast
  from inst have c3:
    "\<forall>m. StCode m
       \<notin> set (events (process_url catalog_not_loaded fresh_session careers_url () None))"
    by blast
  from inst h3 have c4:
    "main catalog_not_loaded visitor_click fresh_session =
       \<lparr>outcome = Raised (Exception ''CatalogUnavailableError'' ''cannot read the catalog''),
        events = [], session_after = fresh_session\<rparr>"
    "run catalog_not_loaded visitor_click fresh_session =
       \<lparr>outcome = Returned, events = [StError InitFailed], session_after = fresh_session\<rparr>"
    by blast+
  have c5: "events (process_url catalog_not_loaded fresh_session careers_url () None) =
     [LoadUrl careers_url, StInfo Extracting, ExtractJobs ''two jobs'',
      StSuccess (FoundJobs 2),
      StHeading 1 (PStr ''Senior Backend Engineer''), StMetric (PStr ''5+ years''),
      StSkillsHeading, StSkillTag (PStr ''Python''), StSkillTag (PStr ''Go''),
      StSkillTag (PStr ''Kubernetes''),
      QueryLinks 1 (skills_of backend_job),
      StError (ErrorOccurred ''CatalogUnavailableError''), StInfo TryDifferentUrl]"
    by (simp add: catalog_not_loaded_def process_url_def process_url_try_def
          load_and_process_url_def email_for_job_def skill_tags_def dict_get_def Let_def
          fresh_session_def backend_job_def analyst_job_def
          portfolio_query_links_def queryLinks_def)
  from h1 h2 h3 c1 c2 c3 c4 c5 show ?thesis by simp
qed

section \<open>A composition that fails\<close>

text \<open>
  C2, as the code has it. When the postings before posting \<open>n\<close> were all composed, the
  header and the tags of posting \<open>n\<close> were rendered (\<^verbatim>\<open>st.metric\<close> accepted its experience
  and the skills could be shown), its links were matched and \<^verbatim>\<open>write_mail\<close> raises for it,
  the run ends there: the log holds the emails of the earlier postings, the heading, tags
  and the two calls of posting \<open>n\<close>, and one error report with the exception's text. The
  number of rendered emails is the number of earlier postings, no later posting is
  matched, and the session counter is unchanged.
\<close>

theorem composition_error_ends_the_run:
  assumes "load_and_process_url w url = Some cleaned" and "cleaned \<noteq> []"
    and "extract_jobs w chain cleaned = Inr (earlier @ job # later)"
    and "generate_emails w chain portfolio 1 earlier = (evs, None)"
    and "skill_tags (skills_of job) = (tags, None)"
    and "query_links w portfolio (Suc (length earlier)) (skills_of job) = Inr links"
    and "write_mail w chain (Suc (length earlier)) job links = Inl e"
    and "st_metric (experience_of job) = Inr (StMetric (experience_of job))"
  shows "process_url w s url chain portfolio =
           \<lparr>outcome = Returned,
            events = found_events s url cleaned (earlier @ job # later) @ evs @
                       header_of (Suc (length earlier)) job @ tags @
                       [QueryLinks (Suc (length earlier)) (skills_of job),
                        WriteMail (Suc (length earlier)) job links] @
                       error_report e,
            session_after = s\<rparr> \<and>
         length (filter is_email (events (process_url w s url chain portfolio))) =
           length earlier \<and>
         (\<forall>i sk. QueryLinks i sk \<in> set (events (process_url w s url chain portfolio)) \<longrightarrow>
            i \<le> Suc (length earlier))"
proof -
  let ?n = "Suc (length earlier)"
  let ?mine = "header_of ?n job @ tags @
                 [QueryLinks ?n (skills_of job), WriteMail ?n job links]"
  have one: "email_for_job w chain portfolio ?n job = (?mine, Some e)"
    using assms(5,6,7,8) by (simp add: email_for_job_def)
  then have "generate_emails w chain portfolio ?n (job # later) = (?mine, Some e)"
    by simp
  with generate_emails_append[OF assms(4), of "job # later"]
  have loop: "generate_emails w chain portfolio 1 (earlier @ job # later) =
                (evs @ ?mine, Some e)"
    by simp
  have run_eq: "process_url w s url chain portfolio =
           \<lparr>outcome = Returned,
            events = found_events s url cleaned (earlier @ job # later) @ evs @ ?mine @
                       error_report e,
            session_after = s\<rparr>"
  proof (cases rule: process_url_cases[where w=w and s=s and url=url and chain=chain
                                        and portfolio=portfolio])
    case (load_failed cleaned_data)
    with assms(1,2) show ?thesis by auto
  next
    case (extract_failed cleaned' e')
    with assms(1,3) show ?thesis by simp
  next
    case (no_jobs cleaned')
    with assms(1,3) show ?thesis by simp
  next
    case (with_jobs cleaned' jobs evs' r)
    with assms(1,3) have same: "cleaned' = cleaned" "jobs = earlier @ job # later"
      by simp_all
    with with_jobs(5) loop have "evs' = evs @ ?mine" "r = Some e" by simp_all
    with with_jobs(6) same show ?thesis
      by (simp add: closing_def counted_def)
  qed
  have emails: "length (filter is_email (evs @ ?mine @ error_report e)) = length earlier"
    using generate_emails_all_composed[OF assms(4)] tags_no_email[OF assms(5)]
    by (simp add: error_report_def)
  have bound: "i \<le> ?n"
    if "QueryLinks i sk \<in> set (events (process_url w s url chain portfolio))" for i sk
  proof -
    from that run_eq
    have "QueryLinks i sk \<in> set (found_events s url cleaned (earlier @ job # later)) \<or>
          QueryLinks i sk \<in> set evs \<or> QueryLinks i sk \<in> set tags \<or> i = ?n"
      by (auto simp: error_report_def)
    moreover have "QueryLinks i sk \<notin> set (found_events s url cleaned (earlier @ job # later))"
      using found_events_mem[of "QueryLinks i sk"] by blast
    moreover have "QueryLinks i sk \<notin> set tags"
      using tags_events(1)[OF assms(5)] .
    moreover have "i \<le> ?n" if "QueryLinks i sk \<in> set evs"
      using generate_emails_query_index[OF assms(4) that] by simp
    ultimately show ?thesis by auto
  qed
  from run_eq emails bound show ?thesis
    by (simp add: found_events_no_email)
qed

theorem composition_error_ends_the_run_witness:
  "load_and_process_url second_mail_fails careers_url = Some ''three jobs'' \<and>
   ''three jobs'' \<noteq> [] \<and>
   extract_jobs second_mail_fails () ''three jobs'' =
     Inr ([analyst_job] @ backend_job # [analyst_job]) \<and>
   generate_emails second_mail_fails () () 1 [analyst_job] =
     ([StHeading 1 (PStr ''Data Analyst''), StMetric (PStr ''N/A''),
       StSkillsHeading, StSkillTag (PStr ''SQL''),
       QueryLinks 1 (skills_of analyst_job), WriteMail 1 analyst_job [portfolio_link],
       StCode ''Dear hiring manager'', StDownload 1 ''Dear hiring manager''], None) \<and>
   skill_tags (skills_of backend_job) =
     ([StSkillsHeading, StSkillTag (PStr ''Python''), StSkillTag (PStr ''Go''),
       StSkillTag (PStr ''Kubernetes'')], None) \<and>
   query_links second_mail_fails () 2 (skills_of backend_job) = Inr [portfolio_link] \<and>
   write_mail second_mail_fails () 2 backend_job [portfolio_link] = Inl composition_error \<and>
   st_metric (experience_of backend_job) = Inr (StMetric (experience_of backend_job)) \<and>
   experience_of backend_job = PStr ''5+ years'' \<and>
   events (process_url second_mail_fails fresh_session careers_url () ()) =
     [LoadUrl careers_url, StInfo Extracting, ExtractJobs ''three jobs'',
      StSuccess (FoundJobs 3),
      StHeading 1 (PStr ''Data Analyst''), StMetric (PStr ''N/A''),
      StSkillsHeading, StSkillTag (PStr ''SQL''),
      QueryLinks 1 (skills_of analyst_job), WriteMail 1 analyst_job [portfolio_link],
      StCode ''Dear hiring manager'', StDownload 1 ''Dear hiring manager'',
      StHeading 2 (PStr ''Senior Backend Engineer''), StMetric (PStr ''5+ years''),
      StSkillsHeading, StSkillTag (PStr ''Python''), StSkillTag (PStr ''Go''),
      StSkillTag (PStr ''Kubernetes''),
      QueryLinks 2 (skills_of backend_job), WriteMail 2 backend_job [portfolio_link],
      StError (ErrorOccurred ''empty email''), StInfo TryDifferentUrl] \<and>
   length (filter is_email
     (events (process_url second_mail_fails fresh_session careers_url () ()))) = 1"
proof -
  have h1: "load_and_process_url second_mail_fails careers_url = Some ''three jobs''"
    by (simp add: second_mail_fails_def run_defs)
  have h2: "''three jobs'' \<noteq> []" by simp
  have h3: "extract_jobs second_mail_fails () ''three jobs'' =
              Inr ([analyst_job] @ backend_job # [analyst_job])"
    by (simp add: second_mail_fails_def)
  have h4: "generate_emails second_mail_fails () () 1 [analyst_job] =
     ([StHeading 1 (PStr ''Data Analyst''), StMetric (PStr ''N/A''),
       StSkillsHeading, StSkillTag (PStr ''SQL''),
       QueryLinks 1 (skills_of analyst_job), WriteMail 1 analyst_job [portfolio_link],
       StCode ''Dear hiring manager'', StDownload 1 ''Dear hiring manager''], None)"
    by (simp add: second_mail_fails_def run_defs)
  have h5: "skill_tags (skills_of backend_job) =
     ([StSkillsHeading, StSkillTag (PStr ''Python''), StSkillTag (PStr ''Go''),
       StSkillTag (PStr ''Kubernetes'')], None)"
    by (simp add: run_defs)
  have h6: "query_links second_mail_fails () (Suc (length [analyst_job]))
              (skills_of backend_job) = Inr [portfolio_link]"
    by (simp add: second_mail_fails_def careers_page_def)
  have h7: "write_mail second_mail_fails () (Suc (length [analyst_job])) backend_job
              [portfolio_link] = Inl composition_error"
    by (simp add: second_mail_fails_def)
  have h8: "st_metric (experience_of backend_job) =
              Inr (StMetric (experience_of backend_job))"
           "experience_of backend_job = PStr ''5+ years''"
    by (simp_all add: backend_job_def dict_get_def)
  from composition_error_ends_the_run
         [OF h1 h2 h3 h4 h5 h6 h7 h8(1), of fresh_session]
  have "length (filter is_email
          (events (process_url second_mail_fails fresh_session careers_url () ()))) =
        length [analyst_job]"
    by blast
  then have "length (filter is_email
          (events (process_url second_mail_fails fresh_session careers_url () ()))) = 1"
    by simp
  moreover have "query_links second_mail_fails () 2 (skills_of backend_job) =
                   Inr [portfolio_link]"
    by (simp add: second_mail_fails_def careers_page_def)
  moreover have "write_mail second_mail_fails () 2 backend_job [portfolio_link] =
                   Inl composition_error"
    by (simp add: second_mail_fails_def)
  ultimately show ?thesis
    using h1 h3 h4 h5 h8 by (simp add: second_mail_fails_run)
qed

text \<open>
  The claim as stated fails: two postings, composing the first raises and composing the
  second would succeed; the second posting is never matched or composed and no email is
  rendered.
\<close>

theorem composition_error_not_isolated_counterexample:
  "extract_jobs first_mail_fails () ''two jobs'' = Inr [backend_job, analyst_job] \<and>
   write_mail first_mail_fails () 1 backend_job [portfolio_link] = Inl composition_error \<and>
   write_mail first_mail_fails () 2 analyst_job [portfolio_link] = Inr ''Dear hiring manager'' \<and>
   events (process_url first_mail_fails fresh_session careers_url () ()) =
     [LoadUrl careers_url, StInfo Extracting, ExtractJobs ''two jobs'',
      StSuccess (FoundJobs 2),
      StHeading 1 (PStr ''Senior Backend Engineer''), StMetric (PStr ''5+ years''),
      StSkillsHeading, StSkillTag (PStr ''Python''), StSkillTag (PStr ''Go''),
      StSkillTag (PStr ''Kubernetes''),
      QueryLinks 1 (skills_of backend_job), WriteMail 1 backend_job [portfolio_link],
      StError (ErrorOccurred ''empty email''), StInfo TryDifferentUrl] \<and>
   filter is_email (events (process_url first_mail_fails fresh_session careers_url () ())) = []"
  by (simp add: first_mail_fails_run) (simp add: first_mail_fails_def careers_page_def)

section \<open>The links of a query\<close>

text \<open>
  C7. For a skill sequence that is not empty and a loaded catalog that is not empty,
  \<open>queryLinks\<close> returns the links of the matched entries with the first occurrence of
  every link kept: the result has no duplicate, holds exactly the links of the matched
  entries and keeps their order. The matched entries are the first \<open>topK\<close> of the ranking:
  they are in descending similarity, every entry left out is at most as similar as every
  matched one, and among the entries of one similarity value the matched ones are the first
  of the catalog, in catalog order.
\<close>

theorem links_ranked_by_similarity:
  assumes "skills \<noteq> []" and "indexed \<noteq> []"
  shows "queryLinks emb (Some indexed) skills topK =
           Inr (first_occurrences
                  (map (\<lambda>(entry, v). link entry) (matched emb indexed skills topK))) \<and>
         (\<forall>ls. queryLinks emb (Some indexed) skills topK = Inr ls \<longrightarrow>
            distinct ls \<and>
            set ls = set (map (\<lambda>(entry, v). link entry) (matched emb indexed skills topK)) \<and>
            subseq ls (map (\<lambda>(entry, v). link entry) (matched emb indexed skills topK))) \<and>
         length (matched emb indexed skills topK) = min topK (length indexed) \<and>
         set (matched emb indexed skills topK) \<subseteq> set indexed \<and>
         descending (query_score emb skills) (matched emb indexed skills topK) \<and>
         (\<forall>a \<in> set (matched emb indexed skills topK).
            \<forall>b \<in> set (drop topK (rank (query_score emb skills) indexed)).
              query_score emb skills b \<le> query_score emb skills a) \<and>
         (\<forall>k. prefix (filter (\<lambda>x. query_score emb skills x = k)
                         (matched emb indexed skills topK))
                      (filter (\<lambda>x. query_score emb skills x = k) indexed))"
proof -
  let ?sc = "query_score emb skills"
  let ?m = "matched emb indexed skills topK"
  have result: "queryLinks emb (Some indexed) skills topK =
      Inr (first_occurrences (map (\<lambda>(entry, v). link entry) ?m))"
    using assms by (simp add: queryLinks_def)
  have links: "distinct ls \<and> set ls = set (map (\<lambda>(entry, v). link entry) ?m) \<and>
      subseq ls (map (\<lambda>(entry, v). link entry) ?m)"
    if "queryLinks emb (Some indexed) skills topK = Inr ls" for ls
    using that result
    by (auto simp: distinct_first_occurrences set_first_occurrences subseq_first_occurrences)
  have len: "length ?m = min topK (length indexed)"
    by (simp add: matched_def length_rank min.commute)
  have sub: "set ?m \<subseteq> set indexed"
    using set_take_subset[of topK "rank ?sc indexed"] by (simp add: matched_def set_rank)
  have desc: "descending ?sc ?m"
    unfolding matched_def using descending_rank[of ?sc indexed] by (rule sorted_wrt_take)
  have nearest: "?sc b \<le> ?sc a"
    if "a \<in> set ?m" "b \<in> set (drop topK (rank ?sc indexed))" for a b
    using descending_take_drop[OF descending_rank, of a topK ?sc indexed b] that
    by (simp add: matched_def)
  have ties: "prefix (filter (\<lambda>x. ?sc x = k) ?m) (filter (\<lambda>x. ?sc x = k) indexed)" for k
    using prefix_filter_take[of "\<lambda>x. ?sc x = k" topK "rank ?sc indexed"]
    by (simp add: matched_def rank_stable)
  from result links len sub desc nearest ties show ?thesis by blast
qed

theorem links_ranked_by_similarity_witness:
  "[''Django''] \<noteq> [] \<and> sample_index \<noteq> [] \<and>
   load text_length sample_catalog = Some sample_index \<and>
   queryLinks text_length (Some sample_index) [''Django''] 3 =
     Inr [''https://example.com/python'', ''https://example.com/infra''] \<and>
   distinct [''https://example.com/python'', ''https://example.com/infra''] \<and>
   map (query_score text_length [''Django'']) (matched text_length sample_index [''Django''] 3) =
     [6, 6, 6] \<and>
   map (query_score text_length [''Django'']) sample_index = [6, 5, 6, 6]"
proof -
  have h1: "[''Django''] \<noteq> ([]::string list)" by simp
  have h2: "sample_index \<noteq> []" by (simp add: sample_index_def)
  from links_ranked_by_similarity[OF h1 h2, of text_length 3]
  have "queryLinks text_length (Some sample_index) [''Django''] 3 =
          Inr (first_occurrences
                 (map (\<lambda>(entry, v). link entry)
                    (matched text_length sample_index [''Django''] 3)))"
    by blast
  then have "queryLinks text_length (Some sample_index) [''Django''] 3 =
               Inr [''https://example.com/python'', ''https://example.com/infra'']"
    by (simp add: sample_matched first_occurrences_def)
  moreover have "map (query_score text_length [''Django''])
                   (matched text_length sample_index [''Django''] 3) = [6, 6, 6]"
    by (simp add: sample_matched) (simp add: query_score_def text_length_def)
  moreover have "map (query_score text_length [''Django'']) sample_index = [6, 5, 6, 6]"
    by (simp add: sample_index_def query_score_def text_length_def)
  ultimately show ?thesis using h2 sample_loaded by simp
qed


section \<open>The output of the normalizer\<close>

text \<open>
  C4. \<open>normalize\<close> returns a string for every input, and for every input: if the input is
  empty or holds only whitespace, the output is the empty string; the output has no two
  spaces in a row; no character of the output is a control character and the only
  whitespace in it is the space; an output that is not empty neither starts nor ends with
  whitespace; and the characters that are neither whitespace nor control characters are
  the ones of the input, in the same order.
\<close>

theorem normalize_output:
  "((\<forall>c \<in> set raw. is_whitespace c) \<longrightarrow> normalize_text raw = []) \<and>
   single_spaced (normalize_text raw) \<and>
   (\<forall>c \<in> set (normalize_text raw). \<not> is_control c \<and> (is_whitespace c \<longrightarrow> c = CHR '' '')) \<and>
   (normalize_text raw \<noteq> [] \<longrightarrow>
      \<not> is_whitespace (hd (normalize_text raw)) \<and>
      \<not> is_whitespace (last (normalize_text raw))) \<and>
   filter (\<lambda>c. \<not> is_whitespace c) (normalize_text raw) =
     filter (\<lambda>c. \<not> is_whitespace c \<and> \<not> is_control c) raw"
proof (intro conjI impI ballI)
  assume blank: "\<forall>c \<in> set raw. is_whitespace c"
  have "c = CHR '' ''" if "c \<in> set (collapse False (strip_control raw))" for c
    using set_collapse[OF that] blank by (auto simp: strip_control_def)
  then show "normalize_text raw = []"
    unfolding normalize_text_def by (rule trim_spaces)
next
  show "single_spaced (normalize_text raw)"
    unfolding normalize_text_def using collapse_single_spaced by (intro single_spaced_trim) blast
next
  fix c
  assume "c \<in> set (normalize_text raw)"
  then have kept: "c = CHR '' '' \<or> (\<not> is_whitespace c \<and> \<not> is_control c)"
    by (rule normalize_text_keeps)
  then show "\<not> is_control c" using space_not_control by auto
  { assume "is_whitespace c"
    with kept show "c = CHR '' ''" by auto }
next
  assume some: "normalize_text raw \<noteq> []"
  then have ends: "hd (normalize_text raw) \<noteq> CHR '' ''" "last (normalize_text raw) \<noteq> CHR '' ''"
    unfolding normalize_text_def by (rule trim_ends)+
  from some have "hd (normalize_text raw) \<in> set (normalize_text raw)"
    by (rule hd_in_set)
  from normalize_text_keeps[OF this] ends(1)
  show "\<not> is_whitespace (hd (normalize_text raw))" by blast
  from some have "last (normalize_text raw) \<in> set (normalize_text raw)"
    by (rule last_in_set)
  from normalize_text_keeps[OF this] ends(2)
  show "\<not> is_whitespace (last (normalize_text raw))" by blast
next
  have "filter (\<lambda>c. \<not> is_whitespace c) (normalize_text raw) =
          filter (\<lambda>c. \<not> is_whitespace c) (strip_control raw)"
    by (simp only: normalize_text_def text_of_trim text_of_collapse)
  also have "\<dots> = filter (\<lambda>c. \<not> is_whitespace c \<and> \<not> is_control c) raw"
    unfolding strip_control_def filter_filter by (rule filter_cong) auto
  finally show "filter (\<lambda>c. \<not> is_whitespace c) (normalize_text raw) =
          filter (\<lambda>c. \<not> is_whitespace c \<and> \<not> is_control c) raw" .
qed

text \<open>
  The theorem at a page of whitespace only, at the empty page and at a page with line
  breaks, a tab and control characters around two words.
\<close>

theorem normalize_output_witness:
  "list_all is_whitespace blank_page \<and> normalize_text blank_page = [] \<and>
   normalize_text [] = [] \<and>
   normalize_text noisy_page = ''Senior Engineer'' \<and>
   normalize_text noisy_page \<noteq> [] \<and>
   \<not> is_whitespace (hd (normalize_text noisy_page)) \<and>
   \<not> is_whitespace (last (normalize_text noisy_page)) \<and>
   single_spaced (normalize_text noisy_page)"
proof -
  have blank: "\<forall>c \<in> set blank_page. is_whitespace c"
    by (simp add: blank_page_def is_whitespace_def)
  have nothing: "\<forall>c \<in> set ([]::string). is_whitespace c"
    by simp
  have some: "normalize_text noisy_page \<noteq> []"
    by (simp add: normalize_noisy_page)
  from normalize_output[of blank_page] blank have c1: "normalize_text blank_page = []"
    by blast
  from normalize_output[of "[]"] nothing have c2: "normalize_text [] = []"
    by simp
  from normalize_output[of noisy_page] some
  have c3: "\<not> is_whitespace (hd (normalize_text noisy_page))"
    "\<not> is_whitespace (last (normalize_text noisy_page))"
    "single_spaced (normalize_text noisy_page)"
    by blast+
  from blank have "list_all is_whitespace blank_page"
    by (simp add: list_all_iff)
  with some c1 c2 c3 normalize_noisy_page show ?thesis
    by blast
qed

end
